theory Spec2Isabelle
  imports Main "HOL-Library.Word" "HOL-Library.Code_Target_Numeral"
begin

section \<open>Bytes, C strings and the GLib string helpers used by http-launch.c\<close>

text \<open>
  A byte of the receive buffer and a \<open>gchar\<close> are both modelled as \<open>char\<close>;
  a \<open>GByteArray\<close> and a \<open>gchar *\<close> are \<open>string\<close>s (byte lists).
\<close>

abbreviation CR :: char where "CR \<equiv> CHR 0x0D"
abbreviation LF :: char where "LF \<equiv> CHR 0x0A"
abbreviation NUL :: char where "NUL \<equiv> CHR 0x00"

definition CRLF :: string where
  "CRLF = [CR, LF]"

text \<open>The bytes a \<open>gchar *\<close> denotes: everything before the first NUL byte.\<close>

definition c_str :: "string \<Rightarrow> string" where
  "c_str bs = takeWhile (\<lambda>b. b \<noteq> NUL) bs"

text \<open>
  Splitting at delimiter bytes. A string with \<open>n\<close> delimiters has \<open>n + 1\<close> tokens,
  empty tokens included.
\<close>

fun tokens :: "(char \<Rightarrow> bool) \<Rightarrow> string \<Rightarrow> string list" where
  "tokens d [] = [[]]"
| "tokens d (c # cs) =
     (if d c then [] # tokens d cs
      else (case tokens d cs of [] \<Rightarrow> [[c]] | t # ts \<Rightarrow> (c # t) # ts))"

text \<open>
  \<open>g_strsplit_set (string, delimiters, -1)\<close> and \<open>g_strsplit (string, delimiter, -1)\<close>
  with a one-byte delimiter, as every call of the program has it. Both return the
  empty vector for the empty string.
\<close>

definition g_strsplit_set :: "string \<Rightarrow> string \<Rightarrow> string list" where
  "g_strsplit_set str delimiters =
     (if str = [] then [] else tokens (\<lambda>c. c \<in> set delimiters) str)"

definition g_strsplit :: "string \<Rightarrow> char \<Rightarrow> string list" where
  "g_strsplit str delimiter =
     (if str = [] then [] else tokens (\<lambda>c. c = delimiter) str)"

text \<open>
  Reading slot \<open>i\<close> of a NULL-terminated string vector: the slot after the last string
  holds NULL (\<open>None\<close>). The program never reads beyond that slot.
\<close>

definition vec :: "string list \<Rightarrow> nat \<Rightarrow> string option" where
  "vec v i = (if i < length v then Some (v ! i) else None)"

text \<open>\<open>g_str_has_prefix\<close> returns FALSE for a NULL string.\<close>

definition g_str_has_prefix :: "string option \<Rightarrow> string \<Rightarrow> bool" where
  "g_str_has_prefix str pre =
     (case str of None \<Rightarrow> False | Some s \<Rightarrow> take (length pre) s = pre)"

section \<open>The boundary scan of \<open>on_read_bytes\<close>\<close>

definition terminator :: string where
  "terminator = [CR, LF, CR, LF]"

text \<open>
  The test of line 303 on the four bytes at \<open>tmp\<close>, \<open>tmp\<close> being kept as an offset
  into the buffer.
\<close>

definition at_terminator :: "string \<Rightarrow> nat \<Rightarrow> bool" where
  "at_terminator buf tmp = (take 4 (drop tmp buf) = terminator)"

text \<open>
  The iterations of the \<open>while (tmp_len > 3)\<close> loop that advance \<open>tmp\<close> (lines 317-320),
  up to the first iteration whose test succeeds (\<open>Some\<close> of that offset) or to the end
  of the loop (\<open>None\<close>).
\<close>

fun scan :: "string \<Rightarrow> nat \<Rightarrow> nat \<Rightarrow> nat option" where
  "scan buf tmp tmp_len =
     (if tmp_len > 3 then
        (if at_terminator buf tmp then Some tmp
         else scan buf (Suc tmp) (tmp_len - 1))
      else None)"

declare scan.simps [simp del]

text \<open>
  The read loop of lines 286-291: every chunk the stream delivers is appended to the
  session's buffer.
\<close>

definition read_chunks :: "string \<Rightarrow> string list \<Rightarrow> string" where
  "read_chunks buf chunks = foldl (\<lambda>b chunk. b @ chunk) buf chunks"

section \<open>GLib and GStreamer values the request parser relies on\<close>

text \<open>
  \<open>g_ascii_strtoll (nptr, NULL, 10)\<close>: leading white space is skipped, an optional sign
  is read, then the longest run of decimal digits; no digits give 0, and a value that
  does not fit a \<open>gint64\<close> gives \<open>G_MININT64\<close> or \<open>G_MAXINT64\<close>.
\<close>

definition g_ascii_isspace :: "char \<Rightarrow> bool" where
  "g_ascii_isspace c = (c \<in> {CHR '' '', CHR 0x0C, CHR 0x0A, CHR 0x0D, CHR 0x09, CHR 0x0B})"

definition is_digit :: "char \<Rightarrow> bool" where
  "is_digit c = (48 \<le> (of_char c :: nat) \<and> (of_char c :: nat) \<le> 57)"

fun digits_value :: "nat \<Rightarrow> string \<Rightarrow> nat" where
  "digits_value acc [] = acc"
| "digits_value acc (c # cs) =
     (if is_digit c then digits_value (acc * 10 + (of_char c - 48)) cs else acc)"

definition G_MAXINT64 :: int where
  "G_MAXINT64 = 2 ^ 63 - 1"

definition G_MININT64 :: int where
  "G_MININT64 = - (2 ^ 63)"

definition g_ascii_strtoll :: "string \<Rightarrow> int" where
  "g_ascii_strtoll nptr =
     (let s = dropWhile g_ascii_isspace nptr;
          negative = (case s of [] \<Rightarrow> False | c # _ \<Rightarrow> c = CHR ''-'');
          s = (case s of [] \<Rightarrow> []
               | c # cs \<Rightarrow> if c = CHR ''-'' \<or> c = CHR ''+'' then cs else s);
          result = int (digits_value 0 s)
      in if negative \<and> result > - G_MININT64 then G_MININT64
         else if \<not> negative \<and> result > G_MAXINT64 then G_MAXINT64
         else if negative then - result
         else result)"

text \<open>The cast \<open>(gint)\<close> of a \<open>gint64\<close>: the low 32 bits, read as two's complement.\<close>

definition to_gint :: "int \<Rightarrow> int" where
  "to_gint x = sint (word_of_int x :: 32 word)"

text \<open>\<open>GST_SECOND\<close> of GStreamer: the nanoseconds of one second.\<close>

definition GST_SECOND :: int where
  "GST_SECOND = 1000000000"

definition MAX_FLASHBACK :: int where
  "MAX_FLASHBACK = 120"

text \<open>What \<open>%s\<close> prints for a string pointer, NULL included.\<close>

definition fmt_s :: "string option \<Rightarrow> string" where
  "fmt_s p = (case p of None \<Rightarrow> ''(null)'' | Some s \<Rightarrow> s)"

text \<open>
  \<open>g_list_find_custom\<close>: the position of the first element the comparison accepts.
\<close>

fun g_list_find_custom :: "'a list \<Rightarrow> ('a \<Rightarrow> bool) \<Rightarrow> nat option" where
  "g_list_find_custom [] eq = None"
| "g_list_find_custom (x # xs) eq =
     (if eq x then Some 0 else map_option Suc (g_list_find_custom xs eq))"

text \<open>
  \<open>g_byte_array_remove_range (array, 0, length)\<close>: refused when the range exceeds the
  array.
\<close>

definition g_byte_array_remove_range :: "string \<Rightarrow> nat \<Rightarrow> string" where
  "g_byte_array_remove_range array len =
     (if len \<le> length array then drop len array else array)"

text \<open>
  The growth of a \<open>GByteArray\<close>: an append that does not fit the allocated bytes
  reallocates the data to the next power of two, at least 16 bytes.
\<close>

fun g_nearest_pow :: "nat \<Rightarrow> nat" where
  "g_nearest_pow n = (if n \<le> 1 then 1 else 2 * g_nearest_pow ((n + 1) div 2))"

declare g_nearest_pow.simps [simp del]

definition g_array_maybe_expand :: "nat \<Rightarrow> nat \<Rightarrow> nat \<Rightarrow> nat" where
  "g_array_maybe_expand alloc len n =
     (if len + n > alloc then max 16 (g_nearest_pow (len + n)) else alloc)"

section \<open>Data model\<close>

text \<open>
  Pointers are addresses: a \<open>GstElement *\<close>, a \<open>GSocketConnection *\<close> and a
  \<open>GSocket *\<close> are opaque numbers, an \<open>EndPoint *\<close> is the position of the endpoint
  in the global list \<open>endpoints\<close> (fixed after start-up), and a \<open>Client *\<close> is an address
  of the heap of session structs. The two \<open>GSource *\<close> fields record whether the
  source is present. The streams of a session are those of its connection. The
  \<open>GByteArray\<close> of a session is its bytes, \<open>current_message\<close>, and the number of bytes
  allocated for them, \<open>message_alloc\<close>.
\<close>

record EndPoint =
  element :: nat
  ep_name :: string
  content_type :: "string option"
  caps_resolved :: bool

record Client =
  name :: string
  connection :: nat
  socket :: nat
  isource :: bool
  tosource :: bool
  current_message :: string
  message_alloc :: nat
  http_version :: string
  waiting_200_ok :: bool
  endpoint :: "nat option"

text \<open>An emission of the signal \<open>add-full\<close> (lines 247-248).\<close>

record add_full =
  af_element :: nat
  af_socket :: nat
  af_burst_mode :: int
  af_min_value :: "64 word"
  af_max_value :: "64 word"

text \<open>
  What \<open>remove_client\<close> and \<open>client_message\<close> release of a session, by its address:
  the read watch, the timer and the buffer. (The connection handles are counted apart.)
\<close>

datatype resource = Isource nat | Tosource nat | Message nat

text \<open>
  The globals of the program (\<open>clients\<close>, \<open>endpoints\<close>, \<open>started\<close>), the heap of
  session structs (\<open>None\<close>: not allocated, or released by \<open>g_slice_free\<close>), and the
  program's surroundings: what was written on each connection, whether a write on a
  connection fails, the connection handles released by \<open>g_object_unref\<close>, the sources
  destroyed and buffers released, the \<open>add-full\<close> emissions, and whether the pipeline
  fails to start. \<open>stale_len\<close> is what the allocator makes of line 307 after an append
  that reallocates: \<open>None\<close> when the array grows where it is, and \<open>Some g\<close> when it is
  moved, \<open>g\<close> being the value of \<open>tmp - data + 5\<close> for a \<open>tmp\<close> that still points into
  the old block.
\<close>

record world =
  endpoints :: "EndPoint list"
  clients :: "nat list"
  heap :: "nat \<Rightarrow> Client option"
  next_addr :: nat
  started :: bool
  quit :: bool
  play_fails :: bool
  written :: "nat \<Rightarrow> string list"
  write_fails :: "nat \<Rightarrow> bool"
  unrefs :: "nat list"
  emitted :: "add_full list"
  released :: "resource list"
  stale_len :: "nat option"

text \<open>
  What C leaves undefined is a fault of the model: reading through a NULL pointer, and
  using a session struct after \<open>remove_client\<close> has released it. A thread that takes
  a lock it holds blocks for ever: that is the fault \<open>Deadlock\<close>. A fault ends the run;
  the world of the result is the one in which the fault happened. An endpoint pointer
  is NULL or a position of \<open>endpoints\<close>; \<open>deref\<close> treats a position outside the
  list, which no assignment of the program produces, like NULL.
\<close>

datatype fault = NullDeref | UseAfterFree | Deadlock

type_synonym 'a result = "(fault + 'a) \<times> world"

definition ok :: "'a \<Rightarrow> world \<Rightarrow> 'a result" where
  "ok x s = (Inr x, s)"

definition bnd :: "(world \<Rightarrow> 'a result) \<Rightarrow> ('a \<Rightarrow> world \<Rightarrow> 'b result) \<Rightarrow> world \<Rightarrow> 'b result" where
  "bnd m f s = (case m s of (Inl e, s') \<Rightarrow> (Inl e, s') | (Inr x, s') \<Rightarrow> f x s')"

definition load :: "nat \<Rightarrow> world \<Rightarrow> Client result" where
  "load c s = (case heap s c of None \<Rightarrow> (Inl UseAfterFree, s) | Some cl \<Rightarrow> (Inr cl, s))"

definition store :: "nat \<Rightarrow> (Client \<Rightarrow> Client) \<Rightarrow> world \<Rightarrow> unit result" where
  "store c f s =
     (case heap s c of
        None \<Rightarrow> (Inl UseAfterFree, s)
      | Some cl \<Rightarrow> (Inr (), s\<lparr>heap := (heap s)(c \<mapsto> f cl)\<rparr>))"

definition deref :: "nat option \<Rightarrow> world \<Rightarrow> EndPoint result" where
  "deref p s =
     (case p of
        None \<Rightarrow> (Inl NullDeref, s)
      | Some e \<Rightarrow> if e < length (endpoints s) then (Inr (endpoints s ! e), s)
                  else (Inl NullDeref, s))"

section \<open>The locks\<close>

text \<open>
  \<open>G_LOCK_DEFINE_STATIC (clients)\<close> and \<open>(caps)\<close>: two locks that are not re-entrant.
  The handlers are run one at a time and each releases what it takes, so a \<open>G_LOCK\<close>
  waits in vain exactly when the running handler holds the lock already. The functions
  that are reached with a lock held (\<open>send_response_200_ok\<close>, \<open>write_bytes\<close>,
  \<open>remove_client\<close>) take the set of the locks their caller holds as first argument.
\<close>

datatype lock = Caps | Clients

definition G_LOCK :: "lock set \<Rightarrow> lock \<Rightarrow> world \<Rightarrow> unit result" where
  "G_LOCK held l s = (if l \<in> held then (Inl Deadlock, s) else (Inr (), s))"

section \<open>Removing a session and writing to it\<close>

text \<open>
  \<open>remove_client\<close>: the name is printed, the session is taken out of \<open>clients\<close> under
  the lock, and then, in the order of lines 86-100, the two sources are destroyed if
  present, the connection handle and the buffer are released and the struct is freed.
\<close>

definition remove_client :: "lock set \<Rightarrow> nat \<Rightarrow> world \<Rightarrow> unit result" where
  "remove_client held c =
     bnd (load c) (\<lambda>_.
     bnd (G_LOCK held Clients) (\<lambda>_.
     bnd (load c) (\<lambda>cl.
       (\<lambda>s. (Inr (), s\<lparr>clients := remove1 c (clients s),
                        released := released s @
                          (if isource cl then [Isource c] else []) @
                          (if tosource cl then [Tosource c] else []) @ [Message c],
                        unrefs := unrefs s @ [connection cl],
                        heap := (heap s)(c := None)\<rparr>)))))"

text \<open>
  \<open>write_bytes\<close>: the loop writes until all bytes are out or a write returns no
  progress (\<open>w <= 0\<close>, which a write of no bytes also does); then the session is removed.
\<close>

definition write_bytes :: "lock set \<Rightarrow> nat \<Rightarrow> string \<Rightarrow> world \<Rightarrow> unit result" where
  "write_bytes held c data s =
     (case heap s c of
        None \<Rightarrow> (Inl UseAfterFree, s)
      | Some cl \<Rightarrow>
          if write_fails s (connection cl) \<or> data = [] then remove_client held c s
          else (Inr (), s\<lparr>written := (written s)
                        (connection cl := written s (connection cl) @ [data])\<rparr>))"

definition send_response_200_ok :: "lock set \<Rightarrow> nat \<Rightarrow> world \<Rightarrow> unit result" where
  "send_response_200_ok held c =
     bnd (load c) (\<lambda>cl.
     bnd (deref (endpoint cl)) (\<lambda>ep.
       write_bytes held c
         (http_version cl @ '' 200 OK'' @ CRLF @ fmt_s (content_type ep) @ CRLF)))"

definition send_response_404_not_found :: "nat \<Rightarrow> world \<Rightarrow> unit result" where
  "send_response_404_not_found c =
     bnd (load c) (\<lambda>cl.
       write_bytes {} c (http_version cl @ '' 404 Not Found'' @ CRLF @ CRLF))"

definition send_response_400_not_found :: "nat \<Rightarrow> world \<Rightarrow> unit result" where
  "send_response_400_not_found c =
     bnd (load c) (\<lambda>cl.
       write_bytes {} c (http_version cl @ '' 400 Bad Request'' @ CRLF @ CRLF))"

section \<open>\<open>client_message\<close>\<close>

text \<open>
  Lines 190-210: the lookup of the endpoint named by \<open>path_parts[1]\<close>. The result is
  the value of \<open>ret\<close>. The 200 is sent with the lock \<open>caps\<close> held.
\<close>

definition route :: "nat \<Rightarrow> string list \<Rightarrow> world \<Rightarrow> bool result" where
  "route c path_parts s =
     (if length path_parts > 1 then
        (case g_list_find_custom (endpoints s) (\<lambda>e. ep_name e = path_parts ! 1) of
           Some e \<Rightarrow>
             bnd (store c (\<lambda>cl. cl\<lparr>endpoint := Some e\<rparr>)) (\<lambda>_.
             bnd (G_LOCK {} Caps) (\<lambda>_.
             bnd (deref (Some e)) (\<lambda>ep.
             bnd (if caps_resolved ep then send_response_200_ok {Caps} c
                  else store c (\<lambda>cl. cl\<lparr>waiting_200_ok := True\<rparr>)) (\<lambda>_.
               ok True)))) s
         | None \<Rightarrow> bnd (send_response_404_not_found c) (\<lambda>_. ok False) s)
      else ok False s)"

text \<open>
  Lines 163-164 and 213-230: \<open>burst_mode\<close> and \<open>min_value\<close> as the path's third and
  fourth parts set them.
\<close>

definition delivery :: "string list \<Rightarrow> bool \<Rightarrow> int \<times> 64 word" where
  "delivery path_parts ret =
     (let nb_parts = length path_parts;
          burst_mode = (2 :: int);
          min_value = (- 1 :: 64 word);
          (burst_mode, min_value) =
            (if nb_parts > 2 \<and> ret then
               (if path_parts ! 2 = ''flashback'' then (4, word_of_int (30 * GST_SECOND))
                else (burst_mode, min_value))
             else (burst_mode, min_value));
          min_value =
            (if nb_parts > 3 \<and> ret then
               (let offset = to_gint (g_ascii_strtoll (path_parts ! 3))
                in if offset > 0 \<and> offset < MAX_FLASHBACK
                   then word_of_int (offset * GST_SECOND) else min_value)
             else min_value)
      in (burst_mode, min_value))"

text \<open>
  Lines 240-248: the sources are destroyed (a source that is NULL already is only
  warned about) and the socket is handed to the sink.
\<close>

definition start_streaming :: "nat \<Rightarrow> int \<Rightarrow> 64 word \<Rightarrow> 64 word \<Rightarrow> world \<Rightarrow> unit result" where
  "start_streaming c burst_mode min_value max_value =
     bnd (load c) (\<lambda>cl.
     bnd (\<lambda>s. (Inr (), s\<lparr>released := released s @
            (if isource cl then [Isource c] else []) @
            (if tosource cl then [Tosource c] else [])\<rparr>)) (\<lambda>_.
     bnd (store c (\<lambda>cl. cl\<lparr>isource := False, tosource := False\<rparr>)) (\<lambda>_.
     bnd (load c) (\<lambda>cl.
     bnd (deref (endpoint cl)) (\<lambda>ep.
       (\<lambda>s. (Inr (), s\<lparr>emitted := emitted s @
          [\<lparr>af_element = element ep, af_socket = socket cl, af_burst_mode = burst_mode,
            af_min_value = min_value, af_max_value = max_value\<rparr>]\<rparr>)))))))"

text \<open>Lines 251-259.\<close>

definition start_pipeline :: "world \<Rightarrow> unit result" where
  "start_pipeline s =
     (if \<not> started s then (Inr (), s\<lparr>quit := (quit s \<or> play_fails s), started := True\<rparr>)
      else (Inr (), s))"

text \<open>Lines 237-260, run with the value of \<open>ret\<close>.\<close>

definition hand_over :: "nat \<Rightarrow> bool \<Rightarrow> int \<times> 64 word \<Rightarrow> bool \<Rightarrow> world \<Rightarrow> bool result" where
  "hand_over c http_get_request mode ret =
     (if ret then
        bnd (if http_get_request then start_streaming c (fst mode) (snd mode) (- 1)
             else ok ()) (\<lambda>_.
        bnd start_pipeline (\<lambda>_. ok ret))
      else ok ret)"

text \<open>Lines 184-260 for a request line that has a second part.\<close>

definition serve_path :: "nat \<Rightarrow> bool \<Rightarrow> string \<Rightarrow> world \<Rightarrow> bool result" where
  "serve_path c http_get_request path =
     (let path_parts = g_strsplit path CHR ''/''
      in bnd (route c path_parts) (\<lambda>ret.
           hand_over c http_get_request (delivery path_parts ret) ret))"

text \<open>Lines 177-180: the version the responses of this session will carry.\<close>

definition version_of :: "string list \<Rightarrow> string" where
  "version_of parts =
     (case vec parts 1 of
        None \<Rightarrow> ''HTTP/1.0''
      | Some _ \<Rightarrow> (case vec parts 2 of
                    None \<Rightarrow> ''HTTP/1.0''
                  | Some v \<Rightarrow> if v \<noteq> [] then v else ''HTTP/1.0''))"

text \<open>The first line of the request, \<open>lines[0]\<close>.\<close>

definition request_line :: "string \<Rightarrow> string option" where
  "request_line data = vec (g_strsplit_set (c_str data) [CR, LF]) 0"

definition client_message :: "nat \<Rightarrow> string \<Rightarrow> nat \<Rightarrow> world \<Rightarrow> bool result" where
  "client_message c data len =
     (let http_head_request = g_str_has_prefix (request_line data) ''HEAD'';
          http_get_request =
            (\<not> http_head_request \<and> g_str_has_prefix (request_line data) ''GET'')
      in if http_head_request \<or> http_get_request then
           (let parts = (case request_line data of
                           None \<Rightarrow> []
                         | Some l \<Rightarrow> g_strsplit l CHR '' '')
            in bnd (store c (\<lambda>cl. cl\<lparr>http_version := version_of parts\<rparr>)) (\<lambda>_.
                 case vec parts 1 of
                   None \<Rightarrow> ok False
                 | Some path \<Rightarrow> serve_path c http_get_request path))
         else bnd (send_response_400_not_found c) (\<lambda>_. ok False))"

section \<open>\<open>on_read_bytes\<close>, \<open>on_timeout\<close>, \<open>on_new_connection\<close>\<close>

text \<open>
  Line 307, \<open>len = tmp - client->current_message->data + 5\<close>, for a \<open>tmp\<close> that was
  taken at offset \<open>tmp\<close> before the append of line 306. When the append has reallocated
  the array and the allocator has moved it, \<open>tmp\<close> points into the old block and the
  difference is whatever the two addresses make it.
\<close>

definition computed_len :: "bool \<Rightarrow> nat option \<Rightarrow> nat \<Rightarrow> nat" where
  "computed_len reallocated stale tmp =
     (case stale of
        None \<Rightarrow> tmp + 5
      | Some g \<Rightarrow> if reallocated then g else tmp + 5)"

text \<open>
  Lines 304-316, the body run when the terminator is found at \<open>tmp\<close>: a NUL byte is
  appended to the buffer, \<open>len\<close> is computed, and the buffer is handed to
  \<open>client_message\<close> as a C string. A handled request is cut from the front of the buffer
  (unless \<open>len\<close> is beyond the array); otherwise the session is removed.
\<close>

definition handle_request :: "nat \<Rightarrow> nat \<Rightarrow> world \<Rightarrow> bool result" where
  "handle_request c tmp =
     bnd (load c) (\<lambda>prior.
     bnd (store c (\<lambda>cl. cl\<lparr>current_message := current_message cl @ [NUL],
            message_alloc := g_array_maybe_expand (message_alloc cl)
                               (length (current_message cl)) 1\<rparr>)) (\<lambda>_.
     (\<lambda>s.
       (let reallocated = (length (current_message prior) + 1 > message_alloc prior);
            len = computed_len reallocated (stale_len s) tmp
        in bnd (load c) (\<lambda>cl.
           bnd (client_message c (current_message cl) len) (\<lambda>handled.
             if handled then
               bnd (store c (\<lambda>cl. cl\<lparr>current_message :=
                      g_byte_array_remove_range (current_message cl) len\<rparr>)) (\<lambda>_. ok True)
             else bnd (remove_client {} c) (\<lambda>_. ok False)))) s)))"

text \<open>
  The loop of lines 302-321. \<open>scan\<close> runs the iterations that only advance \<open>tmp\<close>;
  at a terminator the request is handled. After a handled request the scan restarts
  at the front of the buffer with its new length; after a removal the loop goes on
  with the \<open>tmp\<close> and \<open>tmp_len\<close> it had, in a buffer that has been released.
\<close>

function scan_loop :: "nat \<Rightarrow> nat \<Rightarrow> nat \<Rightarrow> world \<Rightarrow> unit result" where
  "scan_loop c tmp tmp_len s =
     (if tmp_len > 3 then
        (case heap s c of
           None \<Rightarrow> (Inl UseAfterFree, s)
         | Some cl \<Rightarrow>
             (case scan (current_message cl) tmp tmp_len of
                None \<Rightarrow> (Inr (), s)
              | Some k \<Rightarrow>
                  (case handle_request c k s of
                     (Inl e, s') \<Rightarrow> (Inl e, s')
                   | (Inr handled, s') \<Rightarrow>
                       if handled then
                         (case heap s' c of
                            None \<Rightarrow> (Inl UseAfterFree, s')
                          | Some cl' \<Rightarrow> scan_loop c 0 (length (current_message cl')) s')
                       else scan_loop c k (tmp_len - (k - tmp)) s')))
      else (Inr (), s))"
  by pat_completeness auto

text \<open>How the reads of one call of \<open>on_read_bytes\<close> end: with 0, would-block or an error.\<close>

datatype read_end = Eof | WouldBlock | ReadError

text \<open>The bytes allocated after the appends of the read loop.\<close>

fun read_alloc :: "nat \<Rightarrow> nat \<Rightarrow> string list \<Rightarrow> nat" where
  "read_alloc alloc len [] = alloc"
| "read_alloc alloc len (chunk # chunks) =
     read_alloc (g_array_maybe_expand alloc len (length chunk)) (len + length chunk) chunks"

definition on_read_bytes :: "nat \<Rightarrow> string list \<Rightarrow> read_end \<Rightarrow> world \<Rightarrow> bool result" where
  "on_read_bytes c chunks fin =
     bnd (store c (\<lambda>cl. cl\<lparr>current_message := read_chunks (current_message cl) chunks,
            message_alloc := read_alloc (message_alloc cl) (length (current_message cl))
                               chunks\<rparr>)) (\<lambda>_.
       case fin of
         Eof \<Rightarrow> bnd (remove_client {} c) (\<lambda>_. ok False)
       | WouldBlock \<Rightarrow>
           bnd (load c) (\<lambda>cl.
           bnd (scan_loop c 0 (length (current_message cl))) (\<lambda>_.
           bnd (load c) (\<lambda>cl.
             if length (current_message cl) \<ge> 1024 * 1024
             then bnd (remove_client {} c) (\<lambda>_. ok False)
             else ok True)))
       | ReadError \<Rightarrow> bnd (remove_client {} c) (\<lambda>_. ok False))"

definition on_timeout :: "nat \<Rightarrow> world \<Rightarrow> bool result" where
  "on_timeout c = bnd (remove_client {} c) (\<lambda>_. ok False)"

text \<open>
  \<open>on_new_connection\<close>: the struct is allocated zeroed at a fresh address, so its
  endpoint is NULL, its buffer is created with 1024 bytes allocated, and the session is
  put at the head of \<open>clients\<close> (under the lock, which a new handler finds free). The
  peer's name, the connection and its socket are the arguments.
\<close>

definition on_new_connection :: "string \<Rightarrow> nat \<Rightarrow> nat \<Rightarrow> world \<Rightarrow> bool result" where
  "on_new_connection peer conn sock s =
     (let client = next_addr s
      in (Inr True,
          s\<lparr>heap := (heap s)(client \<mapsto>
               \<lparr>name = peer, connection = conn, socket = sock, isource = True,
                tosource = True, current_message = [], message_alloc = 1024,
                http_version = [], waiting_200_ok = False, endpoint = None\<rparr>),
            next_addr := Suc client,
            clients := client # clients s\<rparr>))"

section \<open>\<open>on_stream_caps_changed\<close>\<close>

text \<open>Lines 456-470: the endpoint of the element gets its content type.\<close>

definition resolve_caps :: "nat \<Rightarrow> string \<Rightarrow> world \<Rightarrow> world" where
  "resolve_caps el caps_name s =
     (case g_list_find_custom (endpoints s) (\<lambda>e. element e = el) of
        None \<Rightarrow> s
      | Some l \<Rightarrow>
          s\<lparr>endpoints := (endpoints s)[l := (endpoints s ! l)
               \<lparr>content_type := Some (''Content-Type: '' @ caps_name @ CRLF),
                caps_resolved := True\<rparr>]\<rparr>)"

text \<open>
  Lines 476-483: the walk over \<open>clients\<close>, which stops at the first session that is
  bound to the element and waits for its 200. The walk runs with both locks held
  (lines 473 and 475).
\<close>

fun notify_waiting :: "nat \<Rightarrow> nat list \<Rightarrow> world \<Rightarrow> unit result" where
  "notify_waiting el [] s = (Inr (), s)"
| "notify_waiting el (cl # l) s =
     (case load cl s of
        (Inl e, s') \<Rightarrow> (Inl e, s')
      | (Inr client, _) \<Rightarrow>
          (case deref (endpoint client) s of
             (Inl e, s') \<Rightarrow> (Inl e, s')
           | (Inr ep, _) \<Rightarrow>
               if element ep = el \<and> waiting_200_ok client then
                 bnd (send_response_200_ok {Caps, Clients} cl) (\<lambda>_.
                   store cl (\<lambda>x. x\<lparr>waiting_200_ok := False\<rparr>)) s
               else notify_waiting el l s))"

definition on_stream_caps_changed :: "nat \<Rightarrow> string \<Rightarrow> world \<Rightarrow> unit result" where
  "on_stream_caps_changed el caps_name s =
     (let s1 = resolve_caps el caps_name s
      in bnd (G_LOCK {} Caps) (\<lambda>_.
         bnd (G_LOCK {Caps} Clients) (\<lambda>_. notify_waiting el (clients s1))) s1)"

section \<open>Start-up\<close>

text \<open>
  \<open>main\<close>, lines 530-569: every \<open>multisocketsink\<close> of the pipeline, given by its element
  and its name, becomes an endpoint with no content type yet. Nothing is connected,
  nothing has been written or released, and no write fails. The allocator moves an
  array it reallocates, and the length computed from the stale pointer is then beyond
  any array.
\<close>

definition new_endpoint :: "nat \<times> string \<Rightarrow> EndPoint" where
  "new_endpoint sink =
     \<lparr>element = fst sink, ep_name = snd sink, content_type = None, caps_resolved = False\<rparr>"

definition startup :: "(nat \<times> string) list \<Rightarrow> world" where
  "startup sinks =
     \<lparr>endpoints = map new_endpoint sinks, clients = [], heap = (\<lambda>_. None), next_addr = 0,
      started = False, quit = False, play_fails = False, written = (\<lambda>_. []),
      write_fails = (\<lambda>_. False), unrefs = [], emitted = [], released = [],
      stale_len = Some (2 ^ 32 - 1)\<rparr>"

text \<open>Running one handler after another; a fault ends the run.\<close>

definition after :: "world \<Rightarrow> (world \<Rightarrow> 'a result) \<Rightarrow> world" where
  "after s handler = snd (handler s)"

section \<open>Runs used as examples\<close>

text \<open>
  One endpoint \<open>test\<close> on element 1, and one session: the first connection gets
  address 0; its connection is 7 and its socket 8.
\<close>

definition one_session :: world where
  "one_session = after (startup [(1, ''test'')]) (on_new_connection ''10.0.0.1:4000'' 7 8)"

text \<open>
  The session has asked for \<open>/test\<close> before the element has caps, so it waits for its
  200; then a second session connects (address 1, connection 9, socket 10).
\<close>

definition waiting_and_newcomer :: world where
  "waiting_and_newcomer =
     after (after one_session
        (on_read_bytes 0 [''GET /test HTTP/1.0'' @ CRLF @ CRLF] WouldBlock))
       (on_new_connection ''10.0.0.2:4001'' 9 10)"

text \<open>
  The session asks with HEAD before the element has caps, the caps arrive, and the
  session asks with HEAD again.
\<close>

definition head_caps_head :: world where
  "head_caps_head =
     after (after (after one_session
        (on_read_bytes 0 [''HEAD /test HTTP/1.1'' @ CRLF @ CRLF] WouldBlock))
        (on_stream_caps_changed 1 ''video/x-matroska''))
       (on_read_bytes 0 [''HEAD /test HTTP/1.1'' @ CRLF @ CRLF] WouldBlock)"

text \<open>
  The session of \<open>one_session\<close> with a peer that takes no more bytes: every write on
  connection 7 fails.
\<close>

definition peer_gone :: world where
  "peer_gone = one_session\<lparr>write_fails := (\<lambda>conn. conn = 7)\<rparr>"

text \<open>
  The session waits for its 200, and its peer takes no more bytes when the caps arrive.
\<close>

definition waiting_peer_gone :: world where
  "waiting_peer_gone =
     (after one_session (on_read_bytes 0 [''HEAD /test HTTP/1.1'' @ CRLF @ CRLF] WouldBlock))
       \<lparr>write_fails := (\<lambda>conn. conn = 7)\<rparr>"

text \<open>
  The caps of element 1 are known before the session connects, and the session sends a
  \<open>HEAD\<close> request of exactly 1024 bytes, the bytes its buffer has allocated.
\<close>

definition resolved_session :: world where
  "resolved_session =
     after (after (startup [(1, ''test'')]) (on_stream_caps_changed 1 ''video/x-matroska''))
       (on_new_connection ''10.0.0.1:4000'' 7 8)"

definition padding :: string where
  "padding = replicate 1000 CHR ''a''"

definition request_1024 :: string where
  "request_1024 = ''HEAD /test HTTP/1.0 '' @ padding @ CRLF @ CRLF"

text \<open>The caps of element 1 are announced twice, with two names.\<close>

definition caps_twice :: world where
  "caps_twice =
     after (after (startup [(1, ''test'')]) (on_stream_caps_changed 1 ''video/x-matroska''))
       (on_stream_caps_changed 1 ''video/webm'')"

text \<open>
  A step keeps the buffer of session \<open>c\<close>: if the session is still allocated afterwards,
  it was before, and its buffer and the bytes allocated for it are the same.
\<close>

definition keeps_buf :: "nat \<Rightarrow> world \<Rightarrow> world \<Rightarrow> bool" where
  "keeps_buf c s s' =
     (case heap s' c of None \<Rightarrow> True
      | Some cl' \<Rightarrow> (case heap s c of None \<Rightarrow> False
                     | Some cl \<Rightarrow> current_message cl' = current_message cl \<and>
                                 message_alloc cl' = message_alloc cl))"

section \<open>Facts about the scan\<close>


lemma at_terminator_bound: "at_terminator buf j \<Longrightarrow> j + 4 \<le> length buf"
proof -
  assume "at_terminator buf j"
  then have "length (take 4 (drop j buf)) = 4"
    by (simp add: at_terminator_def terminator_def)
  then show ?thesis by simp
qed

lemma scan_Some_iff:
  "tmp + n = length buf \<Longrightarrow>
   scan buf tmp n = Some k \<longleftrightarrow>
     (tmp \<le> k \<and> at_terminator buf k \<and> (\<forall>j. tmp \<le> j \<and> j < k \<longrightarrow> \<not> at_terminator buf j))"
proof (induction buf tmp n rule: scan.induct)
  case (1 buf tmp tmp_len)
  show ?case
  proof (cases "tmp_len > 3")
    case False
    with "1.prems" have "\<And>j. tmp \<le> j \<Longrightarrow> \<not> at_terminator buf j"
      using at_terminator_bound by fastforce
    with False show ?thesis
      by (subst scan.simps) auto
  next
    case long: True
    show ?thesis
    proof (cases "at_terminator buf tmp")
      case True
      with long show ?thesis
        by (subst scan.simps) (auto simp: not_less)
    next
      case False
      with long "1.prems" have ih:
        "scan buf (Suc tmp) (tmp_len - 1) = Some k \<longleftrightarrow>
           (Suc tmp \<le> k \<and> at_terminator buf k \<and>
            (\<forall>j. Suc tmp \<le> j \<and> j < k \<longrightarrow> \<not> at_terminator buf j))"
        by (intro "1.IH") auto
      have "scan buf tmp tmp_len = scan buf (Suc tmp) (tmp_len - 1)"
        using long False by (subst scan.simps) simp
      moreover have "(Suc tmp \<le> k \<and> at_terminator buf k \<and>
            (\<forall>j. Suc tmp \<le> j \<and> j < k \<longrightarrow> \<not> at_terminator buf j)) \<longleftrightarrow>
          (tmp \<le> k \<and> at_terminator buf k \<and>
            (\<forall>j. tmp \<le> j \<and> j < k \<longrightarrow> \<not> at_terminator buf j))"
        using False by (metis Suc_leI le_neq_implies_less Suc_leD le_eq_less_or_eq)
      ultimately show ?thesis using ih by simp
    qed
  qed
qed



section \<open>The buffer is only changed by \<open>on_read_bytes\<close>; the loop ends\<close>

lemma keeps_buf_refl: "keeps_buf c s s"
  by (simp add: keeps_buf_def split: option.splits)

lemma keeps_buf_trans: "keeps_buf c s s' \<Longrightarrow> keeps_buf c s' s'' \<Longrightarrow> keeps_buf c s s''"
  by (auto simp add: keeps_buf_def split: option.splits)

lemma bnd_keeps:
  assumes "\<And>s r s'. m s = (r, s') \<Longrightarrow> keeps_buf c s s'"
      and "\<And>x s r s'. f x s = (r, s') \<Longrightarrow> keeps_buf c s s'"
      and "bnd m f s = (r, s')"
  shows "keeps_buf c s s'"
proof (cases "m s")
  case (Pair r1 s1)
  have k1: "keeps_buf c s s1" using Pair by (rule assms(1))
  show ?thesis
  proof (cases r1)
    case (Inl e)
    with Pair assms(3) have "s' = s1" by (simp add: bnd_def)
    with k1 show ?thesis by simp
  next
    case (Inr x)
    with Pair assms(3) have "f x s1 = (r, s')" by (simp add: bnd_def)
    then have "keeps_buf c s1 s'" by (rule assms(2))
    with k1 show ?thesis by (rule keeps_buf_trans)
  qed
qed

lemma ok_keeps: "ok x s = (r, s') \<Longrightarrow> keeps_buf c s s'"
  by (auto simp: ok_def keeps_buf_refl)

lemma load_keeps: "load a s = (r, s') \<Longrightarrow> keeps_buf c s s'"
  by (auto simp: load_def keeps_buf_refl split: option.splits)

lemma deref_keeps: "deref p s = (r, s') \<Longrightarrow> keeps_buf c s s'"
  by (auto simp: deref_def keeps_buf_refl split: option.splits if_splits)

lemma G_LOCK_keeps: "G_LOCK held l s = (r, s') \<Longrightarrow> keeps_buf c s s'"
  by (auto simp: G_LOCK_def keeps_buf_refl split: if_splits)

lemma store_keeps:
  "(\<And>cl. current_message (f cl) = current_message cl \<and> message_alloc (f cl) = message_alloc cl) \<Longrightarrow>
   store a f s = (r, s') \<Longrightarrow> keeps_buf c s s'"
  by (auto simp: store_def keeps_buf_def split: option.splits if_splits)

lemma remove_client_keeps: "remove_client held a s = (r, s') \<Longrightarrow> keeps_buf c s s'"
  by (auto simp: remove_client_def bnd_def load_def G_LOCK_def keeps_buf_def
      split: option.splits if_splits)

lemma write_bytes_keeps: "write_bytes held a d s = (r, s') \<Longrightarrow> keeps_buf c s s'"
proof (cases "heap s a")
  case None
  then show "write_bytes held a d s = (r, s') \<Longrightarrow> keeps_buf c s s'"
    by (auto simp: write_bytes_def keeps_buf_refl)
next
  case (Some cl)
  assume w: "write_bytes held a d s = (r, s')"
  show "keeps_buf c s s'"
  proof (cases "write_fails s (connection cl) \<or> d = []")
    case True
    with w Some have "remove_client held a s = (r, s')" by (simp add: write_bytes_def)
    then show ?thesis by (rule remove_client_keeps)
  next
    case False
    with w Some show ?thesis
      by (auto simp: write_bytes_def keeps_buf_def split: option.splits)
  qed
qed

lemma send_200_keeps: "send_response_200_ok held a s = (r, s') \<Longrightarrow> keeps_buf c s s'"
  unfolding send_response_200_ok_def
  by (erule bnd_keeps[rotated 2] load_keeps deref_keeps write_bytes_keeps)+

lemma send_404_keeps: "send_response_404_not_found a s = (r, s') \<Longrightarrow> keeps_buf c s s'"
  unfolding send_response_404_not_found_def
  by (erule bnd_keeps[rotated 2] load_keeps deref_keeps write_bytes_keeps)+

lemma send_400_keeps: "send_response_400_not_found a s = (r, s') \<Longrightarrow> keeps_buf c s s'"
  unfolding send_response_400_not_found_def
  by (erule bnd_keeps[rotated 2] load_keeps deref_keeps write_bytes_keeps)+

lemma route_keeps: "route a pp s = (r, s') \<Longrightarrow> keeps_buf c s s'"
  unfolding route_def
  apply (simp split: if_splits option.splits)
  apply (erule bnd_keeps[rotated 2] send_404_keeps send_200_keeps ok_keeps
           store_keeps[rotated] deref_keeps G_LOCK_keeps | simp split: if_splits)+
  done

lemma start_streaming_keeps:
  "start_streaming a b m1 m2 s = (r, s') \<Longrightarrow> keeps_buf c s s'"
  unfolding start_streaming_def
  apply (erule bnd_keeps[rotated 2], erule load_keeps)
  apply (erule bnd_keeps[rotated 2])
   apply (auto simp: keeps_buf_def split: option.splits)[1]
  apply (erule bnd_keeps[rotated 2])
   apply (erule store_keeps[rotated], simp)
  apply (erule bnd_keeps[rotated 2], erule load_keeps)
  apply (erule bnd_keeps[rotated 2], erule deref_keeps)
  apply (auto simp: keeps_buf_def split: option.splits)
  done

lemma start_pipeline_keeps: "start_pipeline s = (r, s') \<Longrightarrow> keeps_buf c s s'"
  by (auto simp: start_pipeline_def keeps_buf_def split: option.splits if_splits)

lemma hand_over_keeps: "hand_over a g m ret s = (r, s') \<Longrightarrow> keeps_buf c s s'"
  unfolding hand_over_def
  by (cases ret; cases g)
     (auto elim!: bnd_keeps[rotated 2] start_streaming_keeps start_pipeline_keeps ok_keeps)

lemma serve_path_keeps: "serve_path a g p s = (r, s') \<Longrightarrow> keeps_buf c s s'"
  unfolding serve_path_def Let_def
  by (erule bnd_keeps[rotated 2] route_keeps hand_over_keeps)+

lemma client_message_keeps:
  "client_message a data len s = (r, s') \<Longrightarrow> keeps_buf c s s'"
proof -
  assume cm: "client_message a data len s = (r, s')"
  let ?parts = "case request_line data of None \<Rightarrow> [] | Some l \<Rightarrow> g_strsplit l CHR '' ''"
  let ?get = "\<not> g_str_has_prefix (request_line data) ''HEAD'' \<and>
              g_str_has_prefix (request_line data) ''GET''"
  show ?thesis
  proof (cases "g_str_has_prefix (request_line data) ''HEAD'' \<or>
                g_str_has_prefix (request_line data) ''GET''")
    case False
    with cm have "bnd (send_response_400_not_found a) (\<lambda>_. ok False) s = (r, s')"
      by (simp add: client_message_def)
    then show ?thesis
      by (auto elim!: bnd_keeps[rotated 2] send_400_keeps ok_keeps)
  next
    case True
    with cm have *: "bnd (store a (\<lambda>cl. cl\<lparr>http_version := version_of ?parts\<rparr>)) (\<lambda>_.
                 case vec ?parts 1 of
                   None \<Rightarrow> ok False
                 | Some path \<Rightarrow> serve_path a ?get path) s = (r, s')"
      by (auto simp add: client_message_def Let_def)
    show ?thesis
      by (rule bnd_keeps[OF _ _ *])
         (auto elim!: store_keeps[rotated] ok_keeps serve_path_keeps split: option.splits)
  qed
qed

lemma scan_Some_at: "scan buf tmp n = Some k \<Longrightarrow> at_terminator buf k"
proof (induction buf tmp n rule: scan.induct)
  case (1 buf tmp tmp_len)
  from "1.prems" show ?case
    by (subst (asm) scan.simps) (auto split: if_splits intro: "1.IH")
qed

text \<open>
  What a handled request leaves of the buffer: the bytes behind \<open>len\<close> of the buffer
  with its NUL byte, for the \<open>len\<close> that line 307 computes.
\<close>

lemma handle_request_handled:
  assumes "handle_request c k s = (Inr True, s')" and "heap s c = Some cl"
  shows "\<exists>cl'. heap s' c = Some cl' \<and>
           message_alloc cl' =
             g_array_maybe_expand (message_alloc cl) (length (current_message cl)) 1 \<and>
           current_message cl' =
             g_byte_array_remove_range (current_message cl @ [NUL])
               (computed_len (length (current_message cl) + 1 > message_alloc cl)
                  (stale_len s) k)"
proof -
  let ?cl1 = "cl\<lparr>current_message := current_message cl @ [NUL],
                message_alloc := g_array_maybe_expand (message_alloc cl)
                                   (length (current_message cl)) 1\<rparr>"
  let ?s1 = "s\<lparr>heap := (heap s)(c \<mapsto> ?cl1)\<rparr>"
  let ?len = "computed_len (length (current_message cl) + 1 > message_alloc cl) (stale_len s) k"
  obtain r2 s2 where cm: "client_message c (current_message cl @ [NUL]) ?len ?s1 = (r2, s2)"
    by (cases "client_message c (current_message cl @ [NUL]) ?len ?s1")
  have k2: "keeps_buf c ?s1 s2" using cm by (rule client_message_keeps)
  from assms cm have r2: "r2 = Inr True"
    by (auto simp: handle_request_def bnd_def store_def load_def Let_def ok_def remove_client_def
        G_LOCK_def split: sum.splits option.splits if_splits)
  from assms cm r2 obtain cl2 where h2: "heap s2 c = Some cl2"
    and s': "s' = s2\<lparr>heap := (heap s2)(c \<mapsto> cl2\<lparr>current_message :=
                    g_byte_array_remove_range (current_message cl2) ?len\<rparr>)\<rparr>"
    by (auto simp: handle_request_def bnd_def store_def load_def Let_def ok_def
        split: sum.splits option.splits if_splits)
  from k2 h2 have "current_message cl2 = current_message cl @ [NUL]"
    and "message_alloc cl2 = message_alloc ?cl1"
    by (simp_all add: keeps_buf_def)
  with s' show ?thesis by simp
qed

lemma handle_request_unhandled:
  assumes "handle_request c k s = (Inr False, s')"
  shows "heap s' c = None"
  using assms
  by (auto simp: handle_request_def bnd_def store_def load_def Let_def ok_def remove_client_def
        G_LOCK_def split: sum.splits option.splits if_splits prod.splits)

lemma remove_range_length: "length (g_byte_array_remove_range xs n) \<le> length xs"
  by (simp add: g_byte_array_remove_range_def)

lemma g_nearest_pow_ge: "n \<le> g_nearest_pow n"
proof (induction n rule: g_nearest_pow.induct)
  case (1 n)
  show ?case
  proof (cases "n \<le> 1")
    case True
    then show ?thesis by (subst g_nearest_pow.simps) simp
  next
    case False
    with "1.IH" have "(n + 1) div 2 \<le> g_nearest_pow ((n + 1) div 2)" by simp
    with False show ?thesis by (subst g_nearest_pow.simps) simp
  qed
qed

lemma grown_alloc_even: "even (max 16 (g_nearest_pow n))"
proof (cases "n \<le> 1")
  case True
  then show ?thesis by (subst g_nearest_pow.simps) simp
next
  case False
  then have "even (g_nearest_pow n)" by (subst g_nearest_pow.simps) simp
  then show ?thesis by (simp add: max_def)
qed

text \<open>
  The measure of the loop. A handled request shortens the buffer, except when the
  append reallocates and the computed length is refused: then the buffer is one byte
  longer, but it fits the new allocation, which is even, unless it was of odd length.
\<close>

definition loop_measure :: "nat \<times> nat \<times> nat \<times> world \<Rightarrow> nat" where
  "loop_measure = (\<lambda>(c, tmp, tmp_len, s).
     case heap s c of
       None \<Rightarrow> 0
     | Some cl \<Rightarrow>
         Suc (3 * length (current_message cl) +
              (if message_alloc cl \<le> length (current_message cl)
               then (if odd (length (current_message cl)) then 8 else 4) else 0)))"

lemma handled_decreases:
  assumes "handle_request c k s = (Inr True, s')" and "heap s c = Some cl"
      and "at_terminator (current_message cl) k" and "heap s' c = Some cl'"
  shows "loop_measure (c, t', n', s') < loop_measure (c, t, n, s)"
proof -
  let ?L = "length (current_message cl)"
  let ?A = "message_alloc cl"
  let ?len = "computed_len (?L + 1 > ?A) (stale_len s) k"
  from handle_request_handled [OF assms(1,2)] assms(4)
  have A': "message_alloc cl' = g_array_maybe_expand ?A ?L 1"
    and buf': "current_message cl' = g_byte_array_remove_range (current_message cl @ [NUL]) ?len"
    by simp_all
  have k4: "k + 4 \<le> ?L" using assms(3) by (rule at_terminator_bound)
  show ?thesis
  proof (cases "?L + 1 > ?A")
    case False
    then have "?len = k + 5" by (simp add: computed_len_def split: option.splits)
    with buf' k4 have "length (current_message cl') + 4 \<le> ?L"
      by (simp add: g_byte_array_remove_range_def)
    moreover from False A' have "message_alloc cl' = ?A"
      by (simp add: g_array_maybe_expand_def)
    ultimately show ?thesis using False assms(2,4)
      by (simp add: loop_measure_def)
  next
    case True
    from buf' have le: "length (current_message cl') \<le> ?L + 1"
      using remove_range_length [of "current_message cl @ [NUL]" ?len] by simp
    from True A' have A'': "message_alloc cl' = max 16 (g_nearest_pow (?L + 1))"
      by (simp add: g_array_maybe_expand_def)
    have ge: "?L + 1 \<le> message_alloc cl'"
      unfolding A'' using g_nearest_pow_ge [of "?L + 1"] by simp
    have ev: "even (message_alloc cl')"
      unfolding A'' by (rule grown_alloc_even)
    show ?thesis
    proof (cases "message_alloc cl' \<le> length (current_message cl')")
      case False
      with le True assms(2,4) show ?thesis by (simp add: loop_measure_def)
    next
      case full: True
      with le ge have eq: "length (current_message cl') = ?L + 1"
        and "message_alloc cl' = ?L + 1" by simp_all
      with ev have "odd ?L" by simp
      with eq full True assms(2,4) show ?thesis by (simp add: loop_measure_def)
    qed
  qed
qed

termination scan_loop
proof (relation "measure loop_measure")
  show "wf (measure loop_measure)"
    by simp
next
  fix c tmp tmp_len s cl k x y handled cl'
  assume "heap s c = Some cl" "scan (current_message cl) tmp tmp_len = Some k"
    "(x, y) = handle_request c k s" "x = Inr handled" "handled" "heap y c = Some cl'"
  then show "((c, 0, length (current_message cl'), y), (c, tmp, tmp_len, s))
               \<in> measure loop_measure"
    using handled_decreases [of c k s y cl cl' 0 "length (current_message cl')" tmp tmp_len]
      scan_Some_at [of "current_message cl" tmp tmp_len k]
    by simp
next
  fix c tmp tmp_len s cl k x y handled
  assume "heap s c = Some cl" "scan (current_message cl) tmp tmp_len = Some k"
    "(x, y) = handle_request c k s" "x = Inr handled" "\<not> handled"
  then show "((c, k, tmp_len - (k - tmp), y), (c, tmp, tmp_len, s)) \<in> measure loop_measure"
    using handle_request_unhandled [of c k s y]
    by (simp add: loop_measure_def)
qed

declare scan_loop.simps [simp del]

section \<open>Facts about the endpoints and the notification\<close>

lemma find_custom_Some:
  "g_list_find_custom xs P = Some l \<Longrightarrow> l < length xs \<and> P (xs ! l)"
proof (induction xs arbitrary: l)
  case Nil
  then show ?case by simp
next
  case (Cons x xs)
  then show ?case by (cases "P x") auto
qed

lemma find_custom_update:
  "g_list_find_custom xs P = Some l \<Longrightarrow> P y \<Longrightarrow> g_list_find_custom (xs[l := y]) P = Some l"
proof (induction xs arbitrary: l)
  case Nil
  then show ?case by simp
next
  case (Cons x xs)
  then show ?case by (cases "P x") auto
qed

lemma resolve_caps_found:
  assumes "g_list_find_custom (endpoints s) (\<lambda>e. element e = el) = Some l"
  shows "g_list_find_custom (endpoints (resolve_caps el t s)) (\<lambda>e. element e = el) = Some l
       \<and> content_type (endpoints (resolve_caps el t s) ! l) = Some (''Content-Type: '' @ t @ CRLF)
       \<and> caps_resolved (endpoints (resolve_caps el t s) ! l)"
  using assms find_custom_Some [OF assms]
  by (simp add: resolve_caps_def find_custom_update)

text \<open>
  Sending the 200 of the walk and clearing the flag, with the lock \<open>clients\<close> held:
  either the response is written and the flag cleared, or nothing has changed (a write
  that fails calls \<open>remove_client\<close>, which waits for the lock the walk holds).
\<close>

lemma send_200_outcome:
  assumes "bnd (send_response_200_ok held x) (\<lambda>_. store x f) s = (r, s')"
      and "heap s x = Some client" and "Clients \<in> held"
  shows "(r = Inr () \<and> (\<exists>header.
            s' = s\<lparr>written := (written s)(connection client := written s (connection client) @
                      [http_version client @ '' 200 OK'' @ CRLF @ header @ CRLF]),
                    heap := (heap s)(x \<mapsto> f client)\<rparr>)) \<or>
         (r \<noteq> Inr () \<and> s' = s)"
proof (cases "deref (endpoint client) s")
  case (Pair d s0)
  then have s0: "s0 = s"
    by (auto simp: deref_def split: option.splits if_splits)
  show ?thesis
  proof (cases d)
    case (Inl e)
    with assms Pair s0 show ?thesis
      by (auto simp add: send_response_200_ok_def bnd_def load_def)
  next
    case (Inr ep)
    let ?msg = "http_version client @ '' 200 OK'' @ CRLF @ fmt_s (content_type ep) @ CRLF"
    show ?thesis
    proof (cases "write_fails s (connection client)")
      case True
      with assms Pair s0 Inr show ?thesis
        by (auto simp add: send_response_200_ok_def bnd_def load_def write_bytes_def
            remove_client_def G_LOCK_def)
    next
      case False
      with assms Pair s0 Inr have "r = Inr ()"
        and "s' = s\<lparr>written := (written s)(connection client := written s (connection client) @
                      [?msg]), heap := (heap s)(x \<mapsto> f client)\<rparr>"
        by (simp_all add: send_response_200_ok_def bnd_def load_def write_bytes_def store_def
            CRLF_def)
      then show ?thesis by blast
    qed
  qed
qed

lemma notify_waiting_endpoints:
  "notify_waiting el l s = (r, s') \<Longrightarrow> endpoints s' = endpoints s"
proof (induction l)
  case Nil
  then show ?case by simp
next
  case (Cons c l)
  show ?case
  proof (cases "heap s c")
    case None
    with Cons.prems show ?thesis by (simp add: load_def)
  next
    case (Some client)
    show ?thesis
    proof (cases "deref (endpoint client) s")
      case (Pair d s0)
      then have s0: "s0 = s"
        by (auto simp: deref_def split: option.splits if_splits)
      show ?thesis
      proof (cases d)
        case (Inl e)
        with Cons.prems Some Pair s0 show ?thesis by (simp add: load_def)
      next
        case (Inr ep)
        show ?thesis
        proof (cases "element ep = el \<and> waiting_200_ok client")
          case False
          with Cons.prems Some Pair s0 Inr have "notify_waiting el l s = (r, s')"
            by (auto simp add: load_def)
          then show ?thesis by (rule Cons.IH)
        next
          case True
          with Cons.prems Some Pair s0 Inr
          have "bnd (send_response_200_ok {Caps, Clients} c)
                  (\<lambda>_. store c (\<lambda>x. x\<lparr>waiting_200_ok := False\<rparr>)) s = (r, s')"
            by (simp add: load_def)
          from send_200_outcome [OF this Some] show ?thesis by auto
        qed
      qed
    qed
  qed
qed

text \<open>
  What a walk does to one session \<open>c\<close> whose connection no other session has: nothing,
  or it writes its 200 and clears its flag; the latter only if the flag was set, and
  then the walk returns.
\<close>

lemma notify_waiting_one:
  assumes "notify_waiting el l s = (r, s')"
      and "heap s c = Some cl"
      and "\<forall>c' cl'. heap s c' = Some cl' \<and> connection cl' = connection cl \<longrightarrow> c' = c"
  shows "(written s' (connection cl) = written s (connection cl) \<and> heap s' c = Some cl) \<or>
         (waiting_200_ok cl \<and> r = Inr () \<and>
          (\<exists>header. written s' (connection cl) =
             written s (connection cl) @ [http_version cl @ '' 200 OK'' @ CRLF @ header @ CRLF]) \<and>
          heap s' c = Some (cl\<lparr>waiting_200_ok := False\<rparr>))"
  using assms(1)
proof (induction l)
  case Nil
  then show ?case using assms(2) by simp
next
  case (Cons x l)
  show ?case
  proof (cases "heap s x")
    case None
    with Cons.prems assms(2) show ?thesis by (simp add: load_def)
  next
    case (Some client)
    show ?thesis
    proof (cases "deref (endpoint client) s")
      case (Pair d s0)
      then have s0: "s0 = s"
        by (auto simp: deref_def split: option.splits if_splits)
      show ?thesis
      proof (cases d)
        case (Inl e)
        with Cons.prems Some Pair s0 assms(2) show ?thesis by (simp add: load_def)
      next
        case (Inr ep)
        show ?thesis
        proof (cases "element ep = el \<and> waiting_200_ok client")
          case False
          with Cons.prems Some Pair s0 Inr have "notify_waiting el l s = (r, s')"
            by (auto simp add: load_def)
          then show ?thesis by (rule Cons.IH)
        next
          case True
          with Cons.prems Some Pair s0 Inr
          have "bnd (send_response_200_ok {Caps, Clients} x)
                  (\<lambda>_. store x (\<lambda>x. x\<lparr>waiting_200_ok := False\<rparr>)) s = (r, s')"
            by (simp add: load_def)
          from send_200_outcome [OF this Some]
          consider (sent) header where "r = Inr ()"
              "s' = s\<lparr>written := (written s)(connection client := written s (connection client) @
                      [http_version client @ '' 200 OK'' @ CRLF @ header @ CRLF]),
                    heap := (heap s)(x \<mapsto> client\<lparr>waiting_200_ok := False\<rparr>)\<rparr>"
            | (not_sent) "s' = s"
            by auto
          then show ?thesis
          proof cases
            case not_sent
            with assms(2) show ?thesis by simp
          next
            case sent
            show ?thesis
            proof (cases "x = c")
              case same: True
              with Some assms(2) have "client = cl" by simp
              with same True sent show ?thesis by auto
            next
              case False
              with Some assms(3) have "connection client \<noteq> connection cl" by blast
              with False sent assms(2) show ?thesis by simp
            qed
          qed
        qed
      qed
    qed
  qed
qed

text \<open>
  The routing step for a registered endpoint: one 200 at once if the caps are resolved
  (none if the write fails, which removes the session), and otherwise nothing but the
  flag.
\<close>

lemma route_known_endpoint:
  assumes "heap s c = Some cl"
      and "length path_parts > 1"
      and "g_list_find_custom (endpoints s) (\<lambda>e. ep_name e = path_parts ! 1) = Some e"
  shows "\<exists>s'. route c path_parts s = (Inr True, s') \<and>
           (if caps_resolved (endpoints s ! e)
            then (if write_fails s (connection cl)
                  then written s' (connection cl) = written s (connection cl) \<and>
                       heap s' c = None
                  else written s' (connection cl) = written s (connection cl) @
                         [http_version cl @ '' 200 OK'' @ CRLF @
                          fmt_s (content_type (endpoints s ! e)) @ CRLF] \<and>
                       heap s' c = Some (cl\<lparr>endpoint := Some e\<rparr>))
            else written s' (connection cl) = written s (connection cl) \<and>
                 heap s' c = Some (cl\<lparr>endpoint := Some e, waiting_200_ok := True\<rparr>))"
  using assms find_custom_Some [OF assms(3)]
  by (simp add: route_def bnd_def store_def deref_def send_response_200_ok_def load_def
      write_bytes_def remove_client_def G_LOCK_def ok_def CRLF_def)

text \<open>
  One call of \<open>remove_client\<close> on an allocated session, with the lock free: everything
  the session owns is released once, in the order of the code.
\<close>

lemma remove_client_effect:
  assumes "heap s c = Some cl" and "Clients \<notin> held"
  shows "remove_client held c s =
           (Inr (), s\<lparr>clients := remove1 c (clients s),
                      released := released s @
                        (if isource cl then [Isource c] else []) @
                        (if tosource cl then [Tosource c] else []) @ [Message c],
                      unrefs := unrefs s @ [connection cl],
                      heap := (heap s)(c := None)\<rparr>)"
  using assms by (simp add: remove_client_def bnd_def load_def G_LOCK_def)

lemma remove_client_locked:
  assumes "heap s c = Some cl" and "Clients \<in> held"
  shows "remove_client held c s = (Inl Deadlock, s)"
  using assms by (simp add: remove_client_def bnd_def load_def G_LOCK_def)

lemma remove_client_freed: "heap s c = None \<Longrightarrow> remove_client held c s = (Inl UseAfterFree, s)"
  by (simp add: remove_client_def bnd_def load_def)

text \<open>The definitions a run on given input unfolds.\<close>

lemmas run = startup_def new_endpoint_def after_def on_new_connection_def on_read_bytes_def
  bnd_def ok_def load_def store_def deref_def remove_client_def write_bytes_def G_LOCK_def
  send_response_200_ok_def send_response_404_not_found_def send_response_400_not_found_def
  route_def delivery_def start_streaming_def start_pipeline_def hand_over_def serve_path_def
  version_of_def request_line_def client_message_def handle_request_def computed_len_def
  g_array_maybe_expand_def
  on_stream_caps_changed_def resolve_caps_def read_chunks_def scan.simps scan_loop.simps
  at_terminator_def terminator_def CRLF_def g_strsplit_def g_strsplit_set_def vec_def
  g_str_has_prefix_def c_str_def g_byte_array_remove_range_def fmt_s_def Let_def
  g_ascii_strtoll_def to_gint_def GST_SECOND_def MAX_FLASHBACK_def g_ascii_isspace_def
  is_digit_def G_MAXINT64_def G_MININT64_def one_session_def

lemma one_session_heap:
  "heap one_session 0 =
     Some \<lparr>name = ''10.0.0.1:4000'', connection = 7, socket = 8, isource = True,
           tosource = True, current_message = [], message_alloc = 1024, http_version = [],
           waiting_200_ok = False, endpoint = None\<rparr>"
  by (simp add: run)

lemma notify_waiting_null_endpoint:
  "heap s c = Some cl \<Longrightarrow> endpoint cl = None \<Longrightarrow>
   notify_waiting el (c # l) s = (Inl NullDeref, s)"
  by (simp add: load_def deref_def)

lemma to_gint_fits: "- (2 ^ 31) \<le> x \<Longrightarrow> x < 2 ^ 31 \<Longrightarrow> to_gint x = x"
  by (simp add: to_gint_def sint_sbintrunc' signed_take_bit_int_eq_self)

lemma delivery_flashback:
  assumes "length path_parts > 2" and "path_parts ! 2 = ''flashback''"
  shows "delivery path_parts True =
           (4, if length path_parts > 3 \<and>
                  0 < to_gint (g_ascii_strtoll (path_parts ! 3)) \<and>
                  to_gint (g_ascii_strtoll (path_parts ! 3)) < 120
               then word_of_int (to_gint (g_ascii_strtoll (path_parts ! 3)) * GST_SECOND)
               else word_of_int (30 * GST_SECOND))"
  using assms by (simp add: delivery_def Let_def MAX_FLASHBACK_def)

lemma run_result: "fst (f s) = Inr x \<Longrightarrow> f s = (Inr x, after s f)"
  by (simp add: after_def prod_eq_iff)

text \<open>
  When the append of line 306 reallocates, the array is moved and the length computed
  from the stale \<open>tmp\<close> is beyond the array, \<open>g_byte_array_remove_range\<close> refuses it:
  a handled request stays in the buffer, with the NUL byte behind it, and the restarted
  scan finds it again.
\<close>

lemma handled_request_stays:
  assumes "handle_request c k s = (Inr True, s')" and "heap s c = Some cl"
      and "message_alloc cl \<le> length (current_message cl)"
      and "stale_len s = Some g" and "g > length (current_message cl) + 1"
  shows "\<exists>cl'. heap s' c = Some cl' \<and> current_message cl' = current_message cl @ [NUL]"
  using handle_request_handled [OF assms(1,2)] assms(3-5)
  by (auto simp: computed_len_def g_byte_array_remove_range_def)

text \<open>
  A write that fails inside the walk of a caps notification: \<open>remove_client\<close> waits for
  the lock \<open>clients\<close>, which the walk holds. The notification never returns, and the
  session is still listed and allocated.
\<close>

lemma failed_write_in_walk_blocks:
  "fst (on_stream_caps_changed 1 ''video/x-matroska'' waiting_peer_gone) = Inl Deadlock \<and>
   clients (after waiting_peer_gone (on_stream_caps_changed 1 ''video/x-matroska'')) = [0] \<and>
   map_option waiting_200_ok
     (heap (after waiting_peer_gone (on_stream_caps_changed 1 ''video/x-matroska'')) 0) =
     Some True \<and>
   released (after waiting_peer_gone (on_stream_caps_changed 1 ''video/x-matroska'')) = []"
  by (simp add: run waiting_peer_gone_def)

section \<open>A request that fills the allocated bytes\<close>

lemma scan_no_CR:
  assumes "CR \<notin> set pre"
  shows "scan (pre @ terminator @ post) 0 (length (pre @ terminator @ post)) = Some (length pre)"
proof -
  have "at_terminator (pre @ terminator @ post) (length pre)"
    by (simp add: at_terminator_def terminator_def)
  moreover have "\<not> at_terminator (pre @ terminator @ post) j" if "j < length pre" for j
  proof
    assume "at_terminator (pre @ terminator @ post) j"
    then have "take 4 (drop j (pre @ terminator @ post)) = terminator"
      by (simp add: at_terminator_def)
    then have "hd (take 4 (drop j (pre @ terminator @ post))) = CR"
      by (simp add: terminator_def)
    with that have "pre ! j = CR"
      by (simp add: hd_drop_conv_nth nth_append)
    with that assms show False by (metis nth_mem)
  qed
  ultimately show ?thesis
    by (subst scan_Some_iff) auto
qed

lemma tokens_no_delimiter: "\<forall>c\<in>set xs. \<not> d c \<Longrightarrow> tokens d xs = [xs]"
  by (induction xs) simp_all

lemma tokens_first:
  "\<forall>c\<in>set l. \<not> d c \<Longrightarrow> d x \<Longrightarrow> tokens d (l @ x # rest) = l # tokens d rest"
  by (induction l) simp_all

lemma c_str_before_NUL: "NUL \<notin> set xs \<Longrightarrow> c_str (xs @ NUL # ys) = xs"
  by (induction xs) (auto simp add: c_str_def)

lemma padding_set: "set padding = {CHR ''a''}"
  by (simp add: padding_def)

lemma padding_length: "length padding = 1000"
  by (simp add: padding_def)

lemma request_1024_length: "length request_1024 = 1024"
  by (simp add: request_1024_def CRLF_def padding_length)

lemma request_1024_scan:
  "scan request_1024 0 1024 = Some 1020"
  "scan (request_1024 @ [NUL]) 0 1025 = Some 1020"
proof -
  let ?pre = "''HEAD /test HTTP/1.0 '' @ padding"
  have pre: "CR \<notin> set ?pre" "length ?pre = 1020"
    by (simp_all add: padding_set padding_length)
  from scan_no_CR [OF pre(1), of "[]"] pre(2)
  show "scan request_1024 0 1024 = Some 1020"
    by (simp add: request_1024_def terminator_def CRLF_def padding_length)
  from scan_no_CR [OF pre(1), of "[NUL]"] pre(2)
  show "scan (request_1024 @ [NUL]) 0 1025 = Some 1020"
    by (simp add: request_1024_def terminator_def CRLF_def padding_length)
qed

lemma request_1024_line:
  "request_line (request_1024 @ NUL # nuls) = Some (''HEAD /test HTTP/1.0 '' @ padding)"
proof -
  have "NUL \<notin> set request_1024"
    by (simp add: request_1024_def CRLF_def padding_set)
  then have "c_str (request_1024 @ NUL # nuls) = request_1024"
    by (rule c_str_before_NUL)
  moreover have "tokens (\<lambda>c. c \<in> set [CR, LF]) request_1024 =
      (''HEAD /test HTTP/1.0 '' @ padding) # tokens (\<lambda>c. c \<in> set [CR, LF]) (LF # CRLF)"
    unfolding request_1024_def CRLF_def
    using tokens_first [of "''HEAD /test HTTP/1.0 '' @ padding" "\<lambda>c. c \<in> set [CR, LF]" CR "LF # CRLF"]
    by (simp add: padding_set CRLF_def)
  moreover have "request_1024 \<noteq> []"
    by (simp add: request_1024_def)
  ultimately show ?thesis
    by (simp add: request_line_def g_strsplit_set_def vec_def)
qed

lemma request_1024_parts:
  "g_strsplit (''HEAD /test HTTP/1.0 '' @ padding) CHR '' '' =
     [''HEAD'', ''/test'', ''HTTP/1.0'', padding]"
  by (simp add: g_strsplit_def tokens_no_delimiter padding_set)

text \<open>The definitions a run unfolds when the scan and the parse are given by lemmas.\<close>

lemmas run_folded = startup_def new_endpoint_def after_def on_new_connection_def on_read_bytes_def
  bnd_def ok_def load_def store_def deref_def remove_client_def write_bytes_def G_LOCK_def
  send_response_200_ok_def send_response_404_not_found_def send_response_400_not_found_def
  route_def delivery_def start_streaming_def start_pipeline_def hand_over_def serve_path_def
  version_of_def client_message_def handle_request_def computed_len_def
  g_array_maybe_expand_def g_nearest_pow.simps
  on_stream_caps_changed_def resolve_caps_def read_chunks_def scan_loop.simps
  CRLF_def g_strsplit_def vec_def
  g_str_has_prefix_def g_byte_array_remove_range_def fmt_s_def Let_def

text \<open>
  The request of 1024 bytes is handled twice: the append of the NUL byte reallocates,
  the consume is refused, and the restarted scan finds the request again. The session
  is sent two 200 responses for it, and a NUL byte stays in the buffer.
\<close>

lemma request_of_1024_bytes_answered_twice:
  "fst (on_read_bytes 0 [request_1024] WouldBlock resolved_session) = Inr True \<and>
   written (after resolved_session (on_read_bytes 0 [request_1024] WouldBlock)) 7 =
     [''HTTP/1.0 200 OK'' @ CRLF @ ''Content-Type: video/x-matroska'' @ CRLF @ CRLF,
      ''HTTP/1.0 200 OK'' @ CRLF @ ''Content-Type: video/x-matroska'' @ CRLF @ CRLF] \<and>
   map_option current_message
     (heap (after resolved_session (on_read_bytes 0 [request_1024] WouldBlock)) 0) = Some [NUL]"
proof -
  have parts: "tokens (\<lambda>c. c = CHR '' '') (''HEAD /test HTTP/1.0 '' @ padding) =
      [''HEAD'', ''/test'', ''HTTP/1.0'', padding]"
    using request_1024_parts by (simp add: g_strsplit_def)
  have line2: "request_line (request_1024 @ [NUL, NUL]) = Some (''HEAD /test HTTP/1.0 '' @ padding)"
    "request_line (request_1024 @ [NUL]) = Some (''HEAD /test HTTP/1.0 '' @ padding)"
    using request_1024_line [of "[NUL]"] request_1024_line [of "[]"] by simp_all
  show ?thesis
    by (simp add: run_folded resolved_session_def request_1024_length request_1024_scan
        line2 parts)
qed

section \<open>The claims\<close>



text \<open>
  C2 (as the code has it). A complete buffered request whose first line begins neither
  with \<open>HEAD\<close> nor with \<open>GET\<close> is answered, when the write succeeds, with
  \<open>400 Bad Request\<close> behind the version the session holds; \<open>client_message\<close> returns
  FALSE, and the session is then removed: it leaves \<open>clients\<close>, its connection handle
  is released and its struct freed. The connection is not kept open. This holds at
  whatever offset \<open>k\<close> the loop has found the terminator. A line that begins with
  \<open>HEAD\<close> or \<open>GET\<close> takes the other branch of \<open>client_message\<close>, however malformed
  it is, and is not spoken of here.
\<close>

theorem bad_request_answered_400_and_removed:
  assumes "heap s c = Some cl"
    and "\<not> g_str_has_prefix (request_line (current_message cl @ [NUL])) ''HEAD''"
    and "\<not> g_str_has_prefix (request_line (current_message cl @ [NUL])) ''GET''"
    and "\<not> write_fails s (connection cl)"
    and "distinct (clients s)"
  shows "\<exists>s'. handle_request c k s = (Inr False, s') \<and>
           written s' (connection cl) =
             written s (connection cl) @ [http_version cl @ '' 400 Bad Request'' @ CRLF @ CRLF] \<and>
           c \<notin> set (clients s') \<and> heap s' c = None \<and>
           unrefs s' = unrefs s @ [connection cl]"
  using assms
  by (simp add: handle_request_def client_message_def send_response_400_not_found_def
      write_bytes_def remove_client_def G_LOCK_def bnd_def store_def load_def ok_def CRLF_def
      Let_def)

text \<open>
  A new session whose buffer holds \<open>PUT /x HTTP/1.1\<close> and the terminator (found at
  offset 15) meets every hypothesis: it gets the 400 and is removed.
\<close>

theorem bad_request_answered_400_and_removed_witness:
  "\<exists>s'. handle_request 0 15
          (after one_session
             (store 0 (\<lambda>cl. cl\<lparr>current_message := ''PUT /x HTTP/1.1'' @ CRLF @ CRLF\<rparr>))) =
          (Inr False, s') \<and>
        written s' 7 = ['' 400 Bad Request'' @ CRLF @ CRLF] \<and>
        0 \<notin> set (clients s') \<and> heap s' 0 = None \<and> unrefs s' = [7]"
proof -
  let ?s = "after one_session
             (store 0 (\<lambda>cl. cl\<lparr>current_message := ''PUT /x HTTP/1.1'' @ CRLF @ CRLF\<rparr>))"
  let ?cl = "\<lparr>name = ''10.0.0.1:4000'', connection = 7, socket = 8, isource = True,
           tosource = True, current_message = ''PUT /x HTTP/1.1'' @ CRLF @ CRLF,
           message_alloc = 1024, http_version = [], waiting_200_ok = False,
           endpoint = None\<rparr>"
  have h: "heap ?s 0 = Some ?cl" by (simp add: run)
  have "\<exists>s'. handle_request 0 15 ?s = (Inr False, s') \<and>
           written s' (connection ?cl) =
             written ?s (connection ?cl) @ [http_version ?cl @ '' 400 Bad Request'' @ CRLF @ CRLF] \<and>
           0 \<notin> set (clients s') \<and> heap s' 0 = None \<and>
           unrefs s' = unrefs ?s @ [connection ?cl]"
    by (rule bad_request_answered_400_and_removed [OF h]) (simp_all add: run)
  moreover have "written ?s 7 = []" "unrefs ?s = []" by (simp_all add: run)
  ultimately show ?thesis by simp
qed

text \<open>
  Against C2 as stated: after a read that brings \<open>PUT /x HTTP/1.1\<close>, the session has
  its 400 and is no longer in \<open>clients\<close>.
\<close>

theorem bad_request_session_removed:
  "0 \<in> set (clients one_session) \<and>
   written (after one_session
      (on_read_bytes 0 [''PUT /x HTTP/1.1'' @ CRLF @ CRLF] WouldBlock)) 7 =
     ['' 400 Bad Request'' @ CRLF @ CRLF] \<and>
   0 \<notin> set (clients (after one_session
      (on_read_bytes 0 [''PUT /x HTTP/1.1'' @ CRLF @ CRLF] WouldBlock))) \<and>
   heap (after one_session
      (on_read_bytes 0 [''PUT /x HTTP/1.1'' @ CRLF @ CRLF] WouldBlock)) 0 = None"
  by (simp add: run)

text \<open>
  C3 (as the code has it). A complete \<open>GET\<close> or \<open>HEAD\<close> request whose path names an
  endpoint that is not registered is answered, when the write succeeds, with
  \<open>404 Not Found\<close> behind the version of the request; \<open>ret\<close> stays FALSE, and the
  session is then removed: it leaves \<open>clients\<close>, its connection handle is released and
  its struct freed.
\<close>

theorem unknown_endpoint_answered_404_and_removed:
  assumes "heap s c = Some cl"
    and "request_line (current_message cl @ [NUL]) = Some line"
    and "g_str_has_prefix (Some line) ''HEAD'' \<or> g_str_has_prefix (Some line) ''GET''"
    and "vec (g_strsplit line CHR '' '') 1 = Some path"
    and "length (g_strsplit path CHR ''/'') > 1"
    and "g_list_find_custom (endpoints s) (\<lambda>e. ep_name e = g_strsplit path CHR ''/'' ! 1) = None"
    and "\<not> write_fails s (connection cl)"
    and "distinct (clients s)"
  shows "\<exists>s'. handle_request c k s = (Inr False, s') \<and>
           written s' (connection cl) =
             written s (connection cl) @
               [version_of (g_strsplit line CHR '' '') @ '' 404 Not Found'' @ CRLF @ CRLF] \<and>
           c \<notin> set (clients s') \<and> heap s' c = None \<and>
           unrefs s' = unrefs s @ [connection cl]"
  using assms
  by (auto simp add: handle_request_def client_message_def send_response_404_not_found_def
      serve_path_def route_def hand_over_def Let_def
      write_bytes_def remove_client_def G_LOCK_def bnd_def store_def load_def ok_def CRLF_def)

text \<open>
  A new session whose buffer holds \<open>GET /missing HTTP/1.0\<close> and the terminator, with
  \<open>test\<close> the only endpoint, meets every hypothesis.
\<close>

theorem unknown_endpoint_answered_404_and_removed_witness:
  "\<exists>s'. handle_request 0 21
          (after one_session
             (store 0 (\<lambda>cl. cl\<lparr>current_message := ''GET /missing HTTP/1.0'' @ CRLF @ CRLF\<rparr>))) =
          (Inr False, s') \<and>
        written s' 7 = [''HTTP/1.0 404 Not Found'' @ CRLF @ CRLF] \<and>
        0 \<notin> set (clients s') \<and> heap s' 0 = None \<and> unrefs s' = [7]"
proof -
  let ?s = "after one_session
             (store 0 (\<lambda>cl. cl\<lparr>current_message := ''GET /missing HTTP/1.0'' @ CRLF @ CRLF\<rparr>))"
  let ?cl = "\<lparr>name = ''10.0.0.1:4000'', connection = 7, socket = 8, isource = True,
           tosource = True, current_message = ''GET /missing HTTP/1.0'' @ CRLF @ CRLF,
           message_alloc = 1024, http_version = [], waiting_200_ok = False,
           endpoint = None\<rparr>"
  have h: "heap ?s 0 = Some ?cl" by (simp add: run)
  have "\<exists>s'. handle_request 0 21 ?s = (Inr False, s') \<and>
           written s' (connection ?cl) =
             written ?s (connection ?cl) @
               [version_of (g_strsplit ''GET /missing HTTP/1.0'' CHR '' '') @
                '' 404 Not Found'' @ CRLF @ CRLF] \<and>
           0 \<notin> set (clients s') \<and> heap s' 0 = None \<and>
           unrefs s' = unrefs ?s @ [connection ?cl]"
    by (rule unknown_endpoint_answered_404_and_removed
          [OF h, where line = "''GET /missing HTTP/1.0''" and path = "''/missing''"])
       (simp_all add: run)
  moreover have "written ?s 7 = []" "unrefs ?s = []"
    "version_of (g_strsplit ''GET /missing HTTP/1.0'' CHR '' '') = ''HTTP/1.0''"
    by (simp_all add: run)
  ultimately show ?thesis by simp
qed

text \<open>
  Against C3 as stated: after a read that brings \<open>GET /missing HTTP/1.0\<close>, the session
  has its 404 and is no longer in \<open>clients\<close>.
\<close>

theorem unknown_endpoint_session_removed:
  "0 \<in> set (clients one_session) \<and>
   written (after one_session
      (on_read_bytes 0 [''GET /missing HTTP/1.0'' @ CRLF @ CRLF] WouldBlock)) 7 =
     [''HTTP/1.0 404 Not Found'' @ CRLF @ CRLF] \<and>
   0 \<notin> set (clients (after one_session
      (on_read_bytes 0 [''GET /missing HTTP/1.0'' @ CRLF @ CRLF] WouldBlock))) \<and>
   heap (after one_session
      (on_read_bytes 0 [''GET /missing HTTP/1.0'' @ CRLF @ CRLF] WouldBlock)) 0 = None"
  by (simp add: run)

text \<open>
  C4. The specification asks that a second \<open>remove_client\<close> on a session does what one
  does and releases nothing twice. \<open>remove_client\<close> has no guard, and the program does
  call it twice on one session: when the write of a 400 (or 404) fails, \<open>write_bytes\<close>
  removes the session (lines 118-124), \<open>client_message\<close> returns FALSE, and
  \<open>on_read_bytes\<close> removes it again (lines 313-316). Here the peer of the session takes
  no more bytes and the session sends \<open>PUT /x HTTP/1.1\<close>: \<open>client_message\<close> returns with
  the session released once and freed, and the second \<open>remove_client\<close> reads the freed
  struct. (With the lock free, one call on an allocated session does what
  \<open>remove_client_effect\<close> says.)
\<close>

theorem failed_write_removes_session_twice:
  "fst (client_message 0 (''PUT /x HTTP/1.1'' @ CRLF @ CRLF @ [NUL]) 20
          (after peer_gone (store 0 (\<lambda>cl. cl\<lparr>current_message :=
             ''PUT /x HTTP/1.1'' @ CRLF @ CRLF @ [NUL]\<rparr>)))) = Inr False \<and>
   heap (after (after peer_gone (store 0 (\<lambda>cl. cl\<lparr>current_message :=
             ''PUT /x HTTP/1.1'' @ CRLF @ CRLF @ [NUL]\<rparr>)))
          (client_message 0 (''PUT /x HTTP/1.1'' @ CRLF @ CRLF @ [NUL]) 20)) 0 = None \<and>
   released (after (after peer_gone (store 0 (\<lambda>cl. cl\<lparr>current_message :=
             ''PUT /x HTTP/1.1'' @ CRLF @ CRLF @ [NUL]\<rparr>)))
          (client_message 0 (''PUT /x HTTP/1.1'' @ CRLF @ CRLF @ [NUL]) 20)) =
     [Isource 0, Tosource 0, Message 0] \<and>
   fst (remove_client {} 0
         (after (after peer_gone (store 0 (\<lambda>cl. cl\<lparr>current_message :=
             ''PUT /x HTTP/1.1'' @ CRLF @ CRLF @ [NUL]\<rparr>)))
          (client_message 0 (''PUT /x HTTP/1.1'' @ CRLF @ CRLF @ [NUL]) 20))) =
     Inl UseAfterFree \<and>
   fst (on_read_bytes 0 [''PUT /x HTTP/1.1'' @ CRLF @ CRLF] WouldBlock peer_gone) =
     Inl UseAfterFree \<and>
   written (after peer_gone
      (on_read_bytes 0 [''PUT /x HTTP/1.1'' @ CRLF @ CRLF] WouldBlock)) 7 = [] \<and>
   unrefs (after peer_gone
      (on_read_bytes 0 [''PUT /x HTTP/1.1'' @ CRLF @ CRLF] WouldBlock)) = [7] \<and>
   fst (remove_client {} 0 one_session) = Inr () \<and>
   fst (bnd (remove_client {} 0) (\<lambda>_. remove_client {} 0) one_session) = Inl UseAfterFree"
  by (simp add: run peer_gone_def)

text \<open>
  C5 (as the code has it). Every caps notification for a registered element overwrites
  the endpoint's content type: after two notifications that both return, the content
  type is the one of the second, and \<open>caps_resolved\<close> is TRUE after the first and
  after the second.
\<close>

theorem caps_last_writer_wins:
  assumes "g_list_find_custom (endpoints s) (\<lambda>e. element e = el) = Some l"
      and "on_stream_caps_changed el t1 s = (Inr (), s1)"
      and "on_stream_caps_changed el t2 s1 = (Inr (), s2)"
  shows "content_type (endpoints s1 ! l) = Some (''Content-Type: '' @ t1 @ CRLF) \<and>
         caps_resolved (endpoints s1 ! l) \<and>
         content_type (endpoints s2 ! l) = Some (''Content-Type: '' @ t2 @ CRLF) \<and>
         caps_resolved (endpoints s2 ! l)"
proof -
  from assms(2) have e1: "endpoints s1 = endpoints (resolve_caps el t1 s)"
    by (simp add: on_stream_caps_changed_def Let_def bnd_def G_LOCK_def
        notify_waiting_endpoints)
  from assms(3) have e2: "endpoints s2 = endpoints (resolve_caps el t2 s1)"
    by (simp add: on_stream_caps_changed_def Let_def bnd_def G_LOCK_def
        notify_waiting_endpoints)
  from resolve_caps_found [OF assms(1), of t1] e1
  have f1: "g_list_find_custom (endpoints s1) (\<lambda>e. element e = el) = Some l"
    and c1: "content_type (endpoints s1 ! l) = Some (''Content-Type: '' @ t1 @ CRLF)"
    and r1: "caps_resolved (endpoints s1 ! l)"
    by simp_all
  from resolve_caps_found [OF f1, of t2] e2 c1 r1 show ?thesis by simp
qed

text \<open>
  Element 1 is registered at position 0; with no session connected both notifications
  return.
\<close>

theorem caps_last_writer_wins_witness:
  "content_type (endpoints (after (startup [(1, ''test'')])
       (on_stream_caps_changed 1 ''video/x-matroska'')) ! 0) =
     Some (''Content-Type: '' @ ''video/x-matroska'' @ CRLF) \<and>
   caps_resolved (endpoints (after (startup [(1, ''test'')])
       (on_stream_caps_changed 1 ''video/x-matroska'')) ! 0) \<and>
   content_type (endpoints caps_twice ! 0) = Some (''Content-Type: '' @ ''video/webm'' @ CRLF) \<and>
   caps_resolved (endpoints caps_twice ! 0)"
proof -
  let ?s = "startup [(1, ''test'')]"
  let ?s1 = "after ?s (on_stream_caps_changed 1 ''video/x-matroska'')"
  have f: "g_list_find_custom (endpoints ?s) (\<lambda>e. element e = 1) = Some 0"
    by (simp add: run)
  have r1: "on_stream_caps_changed 1 ''video/x-matroska'' ?s = (Inr (), ?s1)"
    by (rule run_result) (simp add: run)
  have r2: "on_stream_caps_changed 1 ''video/webm'' ?s1 = (Inr (), caps_twice)"
    unfolding caps_twice_def by (rule run_result) (simp add: run)
  from caps_last_writer_wins [OF f r1 r2] show ?thesis .
qed

text \<open>
  Against C5 as stated: after \<open>video/x-matroska\<close> and then \<open>video/webm\<close>, the endpoint
  holds the second content type, not the first.
\<close>

theorem caps_second_type_replaces_first:
  "content_type (endpoints (after (startup [(1, ''test'')])
       (on_stream_caps_changed 1 ''video/x-matroska'')) ! 0) =
     Some (''Content-Type: video/x-matroska'' @ CRLF) \<and>
   content_type (endpoints caps_twice ! 0) = Some (''Content-Type: video/webm'' @ CRLF) \<and>
   content_type (endpoints caps_twice ! 0) \<noteq>
     content_type (endpoints (after (startup [(1, ''test'')])
       (on_stream_caps_changed 1 ''video/x-matroska'')) ! 0)"
  by (simp add: run caps_twice_def)

text \<open>
  C6. The specification asks that exactly the request and its terminator, \<open>k + 4\<close> bytes, leave
  the buffer, and that what follows stays as it is. The code appends its NUL byte at the
  end of the whole buffer and removes \<open>k + 5\<close> bytes: when bytes of a next request
  follow, the first of them is removed too and the NUL byte stays behind. Here a
  handled \<open>HEAD\<close> request is followed in the same read by \<open>HE\<close>, the start of the next
  request; the buffer afterwards is \<open>E\<close> and a NUL byte, not \<open>HE\<close>.
\<close>

theorem consume_takes_one_byte_too_many:
  "fst (on_read_bytes 0 [''HEAD /test HTTP/1.0'' @ CRLF @ CRLF @ ''HE''] WouldBlock one_session) =
     Inr True \<and>
   map_option current_message (heap (after one_session
      (on_read_bytes 0 [''HEAD /test HTTP/1.0'' @ CRLF @ CRLF @ ''HE''] WouldBlock)) 0) =
     Some (''E'' @ [NUL])"
  by (simp add: run)

text \<open>
  C7. The specification asks that a 400 response, too, starts with the version of the request,
  or with \<open>HTTP/1.0\<close> when the request has none. The code sets \<open>http_version\<close> only
  for \<open>GET\<close> and \<open>HEAD\<close>; for any other request line it prints the version the
  session holds, which is empty on a new connection. Both \<open>PUT /x HTTP/1.1\<close> and
  \<open>PUT /x\<close> are answered with a status line that starts with a space.
\<close>

theorem bad_request_status_line_has_no_version:
  "written (after one_session
      (on_read_bytes 0 [''PUT /x HTTP/1.1'' @ CRLF @ CRLF] WouldBlock)) 7 =
     ['' 400 Bad Request'' @ CRLF @ CRLF] \<and>
   written (after one_session
      (on_read_bytes 0 [''PUT /x'' @ CRLF @ CRLF] WouldBlock)) 7 =
     ['' 400 Bad Request'' @ CRLF @ CRLF]"
  by (simp add: run)

text \<open>
  C8. The specification asks that a fourth path part outside the open range (0, 120)
  leaves the flashback offset at its 30 seconds. The code narrows the parsed
  \<open>gint64\<close> to \<open>gint\<close> before it compares (\<open>delivery_flashback\<close> gives the offset it
  computes, \<open>to_gint_fits\<close> the numbers the narrowing leaves alone): \<open>4294967341\<close>,
  which is \<open>2 ^ 32 + 45\<close>, is parsed as that number, becomes 45, and the socket is
  added with a start 45 seconds back.
\<close>

theorem flashback_offset_wraps:
  "g_ascii_strtoll ''4294967341'' = 4294967341 \<and>
   emitted (after one_session
      (on_read_bytes 0 [''GET /test/flashback/4294967341 HTTP/1.1'' @ CRLF @ CRLF] WouldBlock)) =
     [\<lparr>af_element = 1, af_socket = 8, af_burst_mode = 4,
       af_min_value = 45 * 1000000000, af_max_value = - 1\<rparr>]"
  by (simp add: run)

text \<open>
  For fourth parts that fit a \<open>gint\<close> the offsets are the specified ones: 30 seconds
  without a fourth part, 45 for \<open>45\<close>, and 30 again for \<open>120\<close>.
\<close>

lemma flashback_default_and_45:
  "emitted (after one_session
      (on_read_bytes 0 [''GET /test/flashback HTTP/1.1'' @ CRLF @ CRLF] WouldBlock)) =
     [\<lparr>af_element = 1, af_socket = 8, af_burst_mode = 4,
       af_min_value = 30 * 1000000000, af_max_value = - 1\<rparr>]"
  "emitted (after one_session
      (on_read_bytes 0 [''GET /test/flashback/45 HTTP/1.1'' @ CRLF @ CRLF] WouldBlock)) =
     [\<lparr>af_element = 1, af_socket = 8, af_burst_mode = 4,
       af_min_value = 45 * 1000000000, af_max_value = - 1\<rparr>]"
  "emitted (after one_session
      (on_read_bytes 0 [''GET /test/flashback/120 HTTP/1.1'' @ CRLF @ CRLF] WouldBlock)) =
     [\<lparr>af_element = 1, af_socket = 8, af_burst_mode = 4,
       af_min_value = 30 * 1000000000, af_max_value = - 1\<rparr>]"
  by (simp_all add: run)

text \<open>
  C9 (as the code has it). A caps notification sends a session, the only one on its
  connection, at most one 200, and only if its \<open>waiting_200_ok\<close> was set; when it
  sends it, it returns and has cleared the flag. A run of the routing step for a
  registered endpoint sends at most one 200: one at once when the endpoint's caps are
  resolved (none if that write fails), and otherwise none, setting \<open>waiting_200_ok\<close>.
  The flag guards the deferred 200 only; it does not bound the 200 responses of a
  session's lifetime, since a session can reach the routing step more than once.
\<close>

theorem one_200_per_request_or_notification:
  "(on_stream_caps_changed el t s = (r, s') \<and> heap s c = Some cl \<and>
      (\<forall>c' cl'. heap s c' = Some cl' \<and> connection cl' = connection cl \<longrightarrow> c' = c) \<longrightarrow>
        (written s' (connection cl) = written s (connection cl) \<and> heap s' c = Some cl) \<or>
        (waiting_200_ok cl \<and> r = Inr () \<and>
         (\<exists>header. written s' (connection cl) =
            written s (connection cl) @ [http_version cl @ '' 200 OK'' @ CRLF @ header @ CRLF]) \<and>
         heap s' c = Some (cl\<lparr>waiting_200_ok := False\<rparr>)))
   \<and> (heap w c = Some cl \<and> length path_parts > 1 \<and>
      g_list_find_custom (endpoints w) (\<lambda>e. ep_name e = path_parts ! 1) = Some e \<longrightarrow>
        (\<exists>w'. route c path_parts w = (Inr True, w') \<and>
           (if caps_resolved (endpoints w ! e)
            then (if write_fails w (connection cl)
                  then written w' (connection cl) = written w (connection cl) \<and>
                       heap w' c = None
                  else written w' (connection cl) = written w (connection cl) @
                         [http_version cl @ '' 200 OK'' @ CRLF @
                          fmt_s (content_type (endpoints w ! e)) @ CRLF] \<and>
                       heap w' c = Some (cl\<lparr>endpoint := Some e\<rparr>))
            else written w' (connection cl) = written w (connection cl) \<and>
                 heap w' c = Some (cl\<lparr>endpoint := Some e, waiting_200_ok := True\<rparr>))))"
proof (intro conjI impI)
  assume a: "on_stream_caps_changed el t s = (r, s') \<and> heap s c = Some cl \<and>
      (\<forall>c' cl'. heap s c' = Some cl' \<and> connection cl' = connection cl \<longrightarrow> c' = c)"
  let ?s1 = "resolve_caps el t s"
  have same: "heap ?s1 = heap s" "written ?s1 = written s" "clients ?s1 = clients s"
    by (simp_all add: resolve_caps_def split: option.splits)
  from a have n: "notify_waiting el (clients ?s1) ?s1 = (r, s')"
    by (simp add: on_stream_caps_changed_def Let_def bnd_def G_LOCK_def)
  from a same have "heap ?s1 c = Some cl"
    and "\<forall>c' cl'. heap ?s1 c' = Some cl' \<and> connection cl' = connection cl \<longrightarrow> c' = c"
    by simp_all
  from notify_waiting_one [OF n this] same
  show "(written s' (connection cl) = written s (connection cl) \<and> heap s' c = Some cl) \<or>
        (waiting_200_ok cl \<and> r = Inr () \<and>
         (\<exists>header. written s' (connection cl) =
            written s (connection cl) @ [http_version cl @ '' 200 OK'' @ CRLF @ header @ CRLF]) \<and>
         heap s' c = Some (cl\<lparr>waiting_200_ok := False\<rparr>))"
    by simp
next
  assume "heap w c = Some cl \<and> length path_parts > 1 \<and>
      g_list_find_custom (endpoints w) (\<lambda>e. ep_name e = path_parts ! 1) = Some e"
  then show "\<exists>w'. route c path_parts w = (Inr True, w') \<and>
           (if caps_resolved (endpoints w ! e)
            then (if write_fails w (connection cl)
                  then written w' (connection cl) = written w (connection cl) \<and>
                       heap w' c = None
                  else written w' (connection cl) = written w (connection cl) @
                         [http_version cl @ '' 200 OK'' @ CRLF @
                          fmt_s (content_type (endpoints w ! e)) @ CRLF] \<and>
                       heap w' c = Some (cl\<lparr>endpoint := Some e\<rparr>))
            else written w' (connection cl) = written w (connection cl) \<and>
                 heap w' c = Some (cl\<lparr>endpoint := Some e, waiting_200_ok := True\<rparr>))"
    using route_known_endpoint [of w c cl path_parts e] by blast
qed

text \<open>
  A session that asked with \<open>HEAD\<close> before the caps were known gets its 200 from the
  notification, which returns; routing \<open>/test\<close> on a new session before the caps are
  known sends nothing and sets the flag.
\<close>

theorem one_200_per_request_or_notification_witness:
  "(\<exists>header. written (after (after one_session
        (on_read_bytes 0 [''HEAD /test HTTP/1.1'' @ CRLF @ CRLF] WouldBlock))
        (on_stream_caps_changed 1 ''video/x-matroska'')) 7 =
      [''HTTP/1.1 200 OK'' @ CRLF @ header @ CRLF])
   \<and> (\<exists>w'. route 0 [[], ''test''] one_session = (Inr True, w') \<and> written w' 7 = [] \<and>
         map_option waiting_200_ok (heap w' 0) = Some True)"
proof -
  let ?s = "after one_session (on_read_bytes 0 [''HEAD /test HTTP/1.1'' @ CRLF @ CRLF] WouldBlock)"
  let ?s' = "after ?s (on_stream_caps_changed 1 ''video/x-matroska'')"
  let ?cl = "\<lparr>name = ''10.0.0.1:4000'', connection = 7, socket = 8, isource = True,
           tosource = True, current_message = [], message_alloc = 1024,
           http_version = ''HTTP/1.1'', waiting_200_ok = True, endpoint = Some 0\<rparr>"
  let ?new = "\<lparr>name = ''10.0.0.1:4000'', connection = 7, socket = 8, isource = True,
           tosource = True, current_message = [], message_alloc = 1024,
           http_version = [], waiting_200_ok = False, endpoint = None\<rparr>"
  note th = one_200_per_request_or_notification
    [of 1 "''video/x-matroska''" ?s "Inr ()" ?s' 0 ?cl]
  have n: "on_stream_caps_changed 1 ''video/x-matroska'' ?s = (Inr (), ?s')"
    by (rule run_result) (simp add: run)
  have h: "heap ?s 0 = Some ?cl" by (simp add: run)
  have u: "\<forall>c' cl'. heap ?s c' = Some cl' \<and> connection cl' = connection ?cl \<longrightarrow> c' = 0"
    by (simp add: run)
  have w: "written ?s 7 = []" by (simp add: run)
  have changed: "heap ?s' 0 \<noteq> Some ?cl" by (simp add: run)
  from th [THEN conjunct1, rule_format, OF conjI [OF n conjI [OF h u]]] changed w
  have first: "\<exists>header. written ?s' 7 = [''HTTP/1.1 200 OK'' @ CRLF @ header @ CRLF]"
    by simp
  have "\<not> caps_resolved (endpoints one_session ! 0)"
    "g_list_find_custom (endpoints one_session) (\<lambda>e. ep_name e = [[], ''test''] ! 1) = Some 0"
    "written one_session 7 = []"
    by (simp_all add: run)
  with one_200_per_request_or_notification
    [of _ _ _ _ _ 0 ?new one_session "[[], ''test'']" 0, THEN conjunct2] one_session_heap
  have "\<exists>w'. route 0 [[], ''test''] one_session = (Inr True, w') \<and> written w' 7 = [] \<and>
         map_option waiting_200_ok (heap w' 0) = Some True"
    by auto
  with first show ?thesis by (rule conjI)
qed

text \<open>
  Against C9 as stated: the session of \<open>head_caps_head\<close> is still connected and has been
  sent two 200 responses, the first by the notification and the second at once for its
  second \<open>HEAD\<close>.
\<close>

theorem two_200_on_one_session:
  "written head_caps_head 7 =
     [''HTTP/1.1 200 OK'' @ CRLF @ ''Content-Type: video/x-matroska'' @ CRLF @ CRLF,
      ''HTTP/1.1 200 OK'' @ CRLF @ ''Content-Type: video/x-matroska'' @ CRLF @ CRLF] \<and>
   clients head_caps_head = [0]"
  by (simp add: run head_caps_head_def)

text \<open>
  C10. The specification asks that the walk of a caps notification skips a session that has no
  endpoint yet. The code reads \<open>cl->endpoint->element\<close> of every session it passes. In
  \<open>waiting_and_newcomer\<close> the session that connected last is first in \<open>clients\<close> and
  its endpoint is NULL: the notification reads through the NULL pointer before it
  reaches the session that waits, which gets nothing.
\<close>

theorem caps_notification_reads_null_endpoint:
  "clients waiting_and_newcomer = [1, 0] \<and>
   map_option endpoint (heap waiting_and_newcomer 1) = Some None \<and>
   map_option waiting_200_ok (heap waiting_and_newcomer 0) = Some True \<and>
   fst (on_stream_caps_changed 1 ''video/x-matroska'' waiting_and_newcomer) = Inl NullDeref \<and>
   written (after waiting_and_newcomer (on_stream_caps_changed 1 ''video/x-matroska'')) 7 = []"
  by (simp add: run waiting_and_newcomer_def)

end
